theory Spec2Isabelle
  imports Main "HOL-Library.Multiset"
begin

section \<open>Data model (types.ts)\<close>

text \<open>
  JavaScript strings are modelled as Isabelle strings: one \<^typ>\<open>char\<close> per UTF-16 code unit,
  so \<^const>\<open>length\<close> is the \<^verbatim>\<open>.length\<close> of the source. The model covers text whose code
  units are below 256 (ASCII and Latin-1).
\<close>

datatype file_status = Added | Removed | Modified | Renamed | Copied | Changed | Unchanged

text \<open>
  \<^verbatim>\<open>PRFile\<close>, with the fields the review service reads. The optional \<^verbatim>\<open>patch\<close> is an
  option; \<^verbatim>\<open>sha\<close>, \<^verbatim>\<open>changes\<close>, the three URLs and \<^verbatim>\<open>previous_filename\<close> are never
  read by the service.
\<close>

record PRFile =
  filename :: string
  status :: file_status
  additions :: int
  deletions :: int
  patch :: "string option"

text \<open>
  A value that came out of \<^verbatim>\<open>JSON.parse\<close>. A number is kept as the exact decimal
  \<open>m * 10 ^ e\<close> of its literal, with \<open>m\<close> not divisible by ten (and \<open>JNum 0 0\<close> for zero);
  the rounding to a double is not modelled. The members of an object are in the order of
  the text; a later member of the same name wins.
\<close>

datatype json =
    JNull
  | JBool bool
  | JNum int int
  | JStr string
  | JArr "json list"
  | JObj "(string \<times> json) list"

text \<open>
  The service types its data as \<^verbatim>\<open>any\<close> while it reads the reply of the remote service,
  so at run time the fields of an issue hold whatever the reply held: \<^verbatim>\<open>file\<close>,
  \<^verbatim>\<open>message\<close>, \<^verbatim>\<open>snippet\<close> and \<^verbatim>\<open>suggestion\<close> are JSON values, \<^verbatim>\<open>line\<close> is a JSON number.
  The two normalizers look a key up in an object literal, which also answers for the two
  lower-case names every object inherits (\<^verbatim>\<open>constructor\<close> and \<^verbatim>\<open>__proto__\<close>): the value
  found there is none of the listed ones, and is kept as \<open>SevInherited\<close> / \<open>CatInherited\<close>.
  The fields \<^verbatim>\<open>id\<close> and \<^verbatim>\<open>file\<close> are named \<open>issue_id\<close> and \<open>issue_file\<close> here; the
  optional \<^verbatim>\<open>endLine\<close> is never set by the service.
\<close>

datatype severity = SevError | SevWarning | SevInfo | SevSuggestion | SevInherited string

datatype category =
    LargeFile | DebugStatement | TodoComment | Security | Complexity | Naming
  | DuplicateCode | MergeConflict | BestPractice | ErrorHandling | Performance
  | CatInherited string

record ReviewIssue =
  issue_id :: string
  issue_file :: json
  line :: json
  severity :: severity
  category :: category
  message :: json
  snippet :: "json option"
  suggestion :: "json option"

record ReviewSummary =
  totalFiles :: nat
  totalIssues :: nat
  errors :: nat
  warnings :: nat
  info :: nat
  suggestions :: nat

record FileReviewResult =
  filename :: string
  status :: file_status
  additions :: int
  deletions :: int
  issues :: "ReviewIssue list"

datatype review_status = Pass | Warn | Fail

text \<open>\<^verbatim>\<open>ReviewResult\<close>; its \<^verbatim>\<open>timestamp\<close> (the clock) is left out.\<close>

record ReviewResult =
  prNumber :: int
  prTitle :: string
  branchName :: string
  summary :: ReviewSummary
  issues :: "ReviewIssue list"
  files :: "FileReviewResult list"
  status :: review_status

section \<open>The JavaScript runtime: JSON.parse\<close>

text \<open>
  \<^verbatim>\<open>JSON.parse\<close> is part of the runtime, not of the repository. It is modelled by a lexer
  and a pushdown recogniser for the JSON grammar; \<open>None\<close> stands for the \<^verbatim>\<open>SyntaxError\<close>
  it throws. A "u" escape (four hexadecimal digits) for a code unit above 255 lies outside
  the strings of this model and is rejected by the lexer.
\<close>

subsection \<open>String literals\<close>

definition is_digit :: "char \<Rightarrow> bool" where
  "is_digit c = (c \<in> set ''0123456789'')"

definition digit_val :: "char \<Rightarrow> nat" where
  "digit_val c = of_char c - 48"

definition nat_of_digits :: "string \<Rightarrow> nat" where
  "nat_of_digits ds = foldl (\<lambda>a d. 10 * a + digit_val d) 0 ds"

definition hex_val :: "char \<Rightarrow> nat option" where
  "hex_val c =
     (if is_digit c then Some (of_char c - 48)
      else if c \<in> set ''abcdef'' then Some (of_char c - 87)
      else if c \<in> set ''ABCDEF'' then Some (of_char c - 55)
      else None)"

definition hex4 :: "char \<Rightarrow> char \<Rightarrow> char \<Rightarrow> char \<Rightarrow> nat option" where
  "hex4 a b c d =
     (case (hex_val a, hex_val b, hex_val c, hex_val d) of
        (Some h1, Some h2, Some h3, Some h4) \<Rightarrow> Some (((h1 * 16 + h2) * 16 + h3) * 16 + h4)
      | _ \<Rightarrow> None)"

text \<open>The character after a backslash, and what it stands for.\<close>

definition escape :: "char \<Rightarrow> char option" where
  "escape e =
     (if e = CHR 0x22 then Some (CHR 0x22)
      else if e = CHR 0x5C then Some (CHR 0x5C)
      else if e = CHR ''/'' then Some (CHR ''/'')
      else if e = CHR ''b'' then Some (CHR 0x08)
      else if e = CHR ''f'' then Some (CHR 0x0C)
      else if e = CHR ''n'' then Some (CHR 0x0A)
      else if e = CHR ''r'' then Some (CHR 0x0D)
      else if e = CHR ''t'' then Some (CHR 0x09)
      else None)"

definition lex_escape :: "string \<Rightarrow> (char \<times> string) option" where
  "lex_escape s =
     (case s of
        [] \<Rightarrow> None
      | e # r \<Rightarrow>
          if e = CHR ''u'' then
            (case r of
               h1 # h2 # h3 # h4 # r' \<Rightarrow>
                 (case hex4 h1 h2 h3 h4 of
                    Some n \<Rightarrow> if n < 256 then Some (char_of n, r') else None
                  | None \<Rightarrow> None)
             | _ \<Rightarrow> None)
          else
            (case escape e of
               Some ch \<Rightarrow> Some (ch, r)
             | None \<Rightarrow> None))"

lemma lex_escape_shorter: "lex_escape s = Some (ch, r) \<Longrightarrow> length r < length s"
  by (auto simp: lex_escape_def split: list.splits if_splits option.splits)

text \<open>The text after an opening quote: the string it holds (collected in \<open>acc\<close>, last
  character first) and what follows the closing quote. A control character, or the end of
  the text before the closing quote, is an error.\<close>

function lex_string :: "string \<Rightarrow> string \<Rightarrow> (string \<times> string) option" where
  "lex_string acc [] = None"
| "lex_string acc (c # cs) =
     (if c = CHR 0x22 then Some (rev acc, cs)
      else if c = CHR 0x5C then
        (case lex_escape cs of
           None \<Rightarrow> None
         | Some (ch, r) \<Rightarrow> lex_string (ch # acc) r)
      else if (of_char c :: nat) < 0x20 then None
      else lex_string (c # acc) cs)"
  by pat_completeness auto
termination
  by (relation "measure (\<lambda>(acc, s). length s)") (auto dest: lex_escape_shorter)

subsection \<open>Numbers\<close>

text \<open>A number literal is an optional minus sign, an integer part (a zero, or digits that
  start with a non-zero digit), an optional fraction and an optional exponent. Its value
  \<open>m * 10 ^ e\<close> is kept with \<open>m\<close> free of factors of ten.\<close>

function strip10 :: "int \<Rightarrow> int \<Rightarrow> int \<times> int" where
  "strip10 m e = (if m \<noteq> 0 \<and> m mod 10 = 0 then strip10 (m div 10) (e + 1) else (m, e))"
  by pat_completeness auto
termination
  by (relation "measure (\<lambda>(m, e). nat \<bar>m\<bar>)") auto

definition mk_num :: "int \<Rightarrow> int \<Rightarrow> json" where
  "mk_num m e = (if m = 0 then JNum 0 0 else (case strip10 m e of (m', e') \<Rightarrow> JNum m' e'))"

definition lex_int :: "string \<Rightarrow> (string \<times> string) option" where
  "lex_int s =
     (case s of
        [] \<Rightarrow> None
      | c # cs \<Rightarrow>
          if c = CHR ''0'' then Some ([c], cs)
          else if is_digit c then Some (takeWhile is_digit s, dropWhile is_digit s)
          else None)"

definition lex_frac :: "string \<Rightarrow> (string \<times> string) option" where
  "lex_frac s =
     (case s of
        c # cs \<Rightarrow>
          if c = CHR ''.'' then
            (if takeWhile is_digit cs = [] then None
             else Some (takeWhile is_digit cs, dropWhile is_digit cs))
          else Some ([], s)
      | [] \<Rightarrow> Some ([], s))"

definition lex_exp :: "string \<Rightarrow> (int \<times> string) option" where
  "lex_exp s =
     (case s of
        c # cs \<Rightarrow>
          if c = CHR ''e'' \<or> c = CHR ''E'' then
            (let neg = (cs \<noteq> [] \<and> hd cs = CHR ''-'');
                 ds = (if cs \<noteq> [] \<and> (hd cs = CHR ''-'' \<or> hd cs = CHR ''+'') then tl cs else cs)
             in if takeWhile is_digit ds = [] then None
                else Some ((if neg then - int (nat_of_digits (takeWhile is_digit ds))
                            else int (nat_of_digits (takeWhile is_digit ds))),
                           dropWhile is_digit ds))
          else Some (0, s)
      | [] \<Rightarrow> Some (0, s))"

definition lex_number :: "string \<Rightarrow> (json \<times> string) option" where
  "lex_number s =
     (let neg = (s \<noteq> [] \<and> hd s = CHR ''-'') in
      case lex_int (if neg then tl s else s) of
        None \<Rightarrow> None
      | Some (ip, s1) \<Rightarrow>
          (case lex_frac s1 of
             None \<Rightarrow> None
           | Some (fd, s2) \<Rightarrow>
               (case lex_exp s2 of
                  None \<Rightarrow> None
                | Some (ex, s3) \<Rightarrow>
                    Some (mk_num ((if neg then - 1 else 1) * int (nat_of_digits (ip @ fd)))
                                 (ex - int (length fd)), s3))))"

subsection \<open>Tokens\<close>

datatype token = LBracket | RBracket | LBrace | RBrace | Comma | Colon | Lit json

definition json_ws :: "char \<Rightarrow> bool" where
  "json_ws c = (c = CHR 0x20 \<or> c = CHR 0x09 \<or> c = CHR 0x0A \<or> c = CHR 0x0D)"

lemma lex_string_shorter: "lex_string acc cs = Some (s, rest) \<Longrightarrow> length rest < Suc (length cs)"
proof (induction acc cs rule: lex_string.induct)
  case (1 acc)
  then show ?case by simp
next
  case (2 acc c cs)
  show ?case
  proof (cases "c = CHR 0x22")
    case True
    with 2(3) show ?thesis by simp
  next
    case nq: False
    show ?thesis
    proof (cases "c = CHR 0x5C")
      case True
      with nq 2(3) obtain ch r where e: "lex_escape cs = Some (ch, r)"
        and l: "lex_string (ch # acc) r = Some (s, rest)"
        by (auto split: option.splits)
      from 2(1)[OF nq True e refl l] lex_escape_shorter[OF e] show ?thesis by simp
    next
      case False
      with nq 2(3) have c: "\<not> (of_char c :: nat) < 0x20" and l: "lex_string (c # acc) cs = Some (s, rest)"
        by (auto split: if_splits)
      from 2(2)[OF nq False c l] show ?thesis by simp
    qed
  qed
qed

lemma drop_digits_le: "length (dropWhile is_digit xs) \<le> length xs"
  by (rule length_dropWhile_le)

lemma drop_digits_tl_le: "length (dropWhile is_digit (tl xs)) \<le> length xs"
proof -
  have "length (dropWhile is_digit (tl xs)) \<le> length (tl xs)" by (rule length_dropWhile_le)
  then show ?thesis by simp
qed

lemma lex_int_shorter: "lex_int s = Some (ds, rest) \<Longrightarrow> length rest < length s"
proof (cases s)
  case Nil
  moreover assume "lex_int s = Some (ds, rest)"
  ultimately show ?thesis by (simp add: lex_int_def)
next
  case (Cons c cs)
  moreover assume "lex_int s = Some (ds, rest)"
  ultimately have "rest = cs \<or> rest = dropWhile is_digit cs"
    by (auto simp: lex_int_def split: if_splits)
  with Cons drop_digits_le[of cs] show ?thesis by auto
qed

lemma lex_frac_shorter: "lex_frac s = Some (ds, rest) \<Longrightarrow> length rest \<le> length s"
proof (cases s)
  case Nil
  moreover assume "lex_frac s = Some (ds, rest)"
  ultimately show ?thesis by (simp add: lex_frac_def)
next
  case (Cons c cs)
  moreover assume "lex_frac s = Some (ds, rest)"
  ultimately have "rest = s \<or> rest = dropWhile is_digit cs"
    by (auto simp: lex_frac_def split: if_splits)
  with Cons drop_digits_le[of cs] show ?thesis by auto
qed

lemma lex_exp_shorter: "lex_exp s = Some (e, rest) \<Longrightarrow> length rest \<le> length s"
proof (cases s)
  case Nil
  moreover assume "lex_exp s = Some (e, rest)"
  ultimately show ?thesis by (simp add: lex_exp_def)
next
  case (Cons c cs)
  moreover assume "lex_exp s = Some (e, rest)"
  ultimately have "rest = s \<or> rest = dropWhile is_digit cs \<or> rest = dropWhile is_digit (tl cs)"
    by (auto simp: lex_exp_def Let_def split: if_splits)
  with Cons drop_digits_le[of cs] drop_digits_tl_le[of cs] show ?thesis by auto
qed

lemma lex_number_shorter: "lex_number s = Some (v, rest) \<Longrightarrow> length rest < length s"
proof -
  assume a: "lex_number s = Some (v, rest)"
  let ?s0 = "if s \<noteq> [] \<and> hd s = CHR ''-'' then tl s else s"
  from a obtain ip s1 fd s2 ex where
    1: "lex_int ?s0 = Some (ip, s1)" and 2: "lex_frac s1 = Some (fd, s2)"
    and 3: "lex_exp s2 = Some (ex, rest)"
    by (auto simp: lex_number_def Let_def split: option.splits)
  have "length ?s0 \<le> length s" by simp
  with lex_int_shorter[OF 1] lex_frac_shorter[OF 2] lex_exp_shorter[OF 3]
  show ?thesis by linarith
qed

definition punctuation :: "char \<Rightarrow> token option" where
  "punctuation c =
     (if c = CHR ''['' then Some LBracket
      else if c = CHR '']'' then Some RBracket
      else if c = CHR ''{'' then Some LBrace
      else if c = CHR ''}'' then Some RBrace
      else if c = CHR '','' then Some Comma
      else if c = CHR '':'' then Some Colon
      else None)"

definition lex_literal :: "string \<Rightarrow> (token \<times> string) option" where
  "lex_literal s =
     (if take 4 s = ''true'' then Some (Lit (JBool True), drop 4 s)
      else if take 5 s = ''false'' then Some (Lit (JBool False), drop 5 s)
      else if take 4 s = ''null'' then Some (Lit JNull, drop 4 s)
      else None)"

definition next_token :: "string \<Rightarrow> (token \<times> string) option" where
  "next_token s =
     (case s of
        [] \<Rightarrow> None
      | c # cs \<Rightarrow>
          (case punctuation c of
             Some t \<Rightarrow> Some (t, cs)
           | None \<Rightarrow>
               if c = CHR 0x22 then
                 (case lex_string [] cs of
                    None \<Rightarrow> None
                  | Some (str, rest) \<Rightarrow> Some (Lit (JStr str), rest))
               else if c = CHR ''-'' \<or> is_digit c then
                 (case lex_number s of
                    None \<Rightarrow> None
                  | Some (v, rest) \<Rightarrow> Some (Lit v, rest))
               else lex_literal s))"

lemma lex_literal_shorter: "lex_literal s = Some (t, rest) \<Longrightarrow> length rest < length s"
proof -
  assume a: "lex_literal s = Some (t, rest)"
  then have "s \<noteq> []" by (auto simp: lex_literal_def split: if_splits)
  moreover from a have "rest = drop 4 s \<or> rest = drop 5 s"
    by (auto simp: lex_literal_def split: if_splits)
  ultimately show ?thesis by auto
qed

lemma next_token_shorter:
  assumes "next_token s = Some (t, rest)"
  shows "length rest < length s"
proof (cases s)
  case Nil
  with assms show ?thesis by (simp add: next_token_def)
next
  case (Cons c cs)
  show ?thesis
  proof (cases "punctuation c")
    case (Some p)
    with assms Cons show ?thesis by (simp add: next_token_def)
  next
    case None
    show ?thesis
    proof (cases "c = CHR 0x22")
      case True
      with assms Cons None obtain str where "lex_string [] cs = Some (str, rest)"
        by (auto simp: next_token_def split: option.splits)
      from lex_string_shorter[OF this] Cons show ?thesis by simp
    next
      case nq: False
      show ?thesis
      proof (cases "c = CHR ''-'' \<or> is_digit c")
        case True
        with assms Cons None nq obtain v where "lex_number s = Some (v, rest)"
          by (auto simp: next_token_def split: option.splits)
        from lex_number_shorter[OF this] show ?thesis .
      next
        case False
        with assms Cons None nq have "lex_literal s = Some (t, rest)"
          by (simp add: next_token_def)
        from lex_literal_shorter[OF this] show ?thesis .
      qed
    qed
  qed
qed

function tokens :: "string \<Rightarrow> token list option" where
  "tokens [] = Some []"
| "tokens (c # cs) =
     (if json_ws c then tokens cs
      else (case next_token (c # cs) of
              None \<Rightarrow> None
            | Some (t, rest) \<Rightarrow> map_option (Cons t) (tokens rest)))"
  by pat_completeness auto
termination
proof (relation "measure length")
  show "wf (measure length)" by simp
next
  fix c :: char and cs :: string
  show "(cs, c # cs) \<in> measure length" by simp
next
  fix c :: char and cs x2 x y
  assume "next_token (c # cs) = Some x2" "(x, y) = x2"
  then have "next_token (c # cs) = Some (x, y)" by simp
  from next_token_shorter[OF this] show "(y, c # cs) \<in> measure length" by simp
qed

subsection \<open>The grammar\<close>

text \<open>
  The tokens are read from left to right with a stack of the containers that are open: an
  array with the elements read so far, an object with the members read so far and the
  name that waits for its value. The state says what may come next.
\<close>

datatype frame = FArr "json list" | FObj "(string \<times> json) list" "string option"

datatype pstate =
    Value
  | ValueOrClose
  | KeyOrClose
  | Key
  | ColonNext
  | CommaOrClose
  | Done json

text \<open>A value is complete: it is the whole text, or it goes into the innermost container.\<close>

fun complete :: "json \<Rightarrow> frame list \<Rightarrow> (frame list \<times> pstate) option" where
  "complete v [] = Some ([], Done v)"
| "complete v (FArr elems # stack) = Some (FArr (elems @ [v]) # stack, CommaOrClose)"
| "complete v (FObj members (Some k) # stack) = Some (FObj (members @ [(k, v)]) None # stack, CommaOrClose)"
| "complete v (FObj members None # stack) = None"

definition start_value :: "frame list \<Rightarrow> token \<Rightarrow> (frame list \<times> pstate) option" where
  "start_value stack t =
     (case t of
        Lit v \<Rightarrow> complete v stack
      | LBracket \<Rightarrow> Some (FArr [] # stack, ValueOrClose)
      | LBrace \<Rightarrow> Some (FObj [] None # stack, KeyOrClose)
      | _ \<Rightarrow> None)"

definition close_array :: "frame list \<Rightarrow> (frame list \<times> pstate) option" where
  "close_array stack =
     (case stack of FArr elems # rest \<Rightarrow> complete (JArr elems) rest | _ \<Rightarrow> None)"

definition close_object :: "frame list \<Rightarrow> (frame list \<times> pstate) option" where
  "close_object stack =
     (case stack of FObj members None # rest \<Rightarrow> complete (JObj members) rest | _ \<Rightarrow> None)"

definition take_key :: "frame list \<Rightarrow> token \<Rightarrow> (frame list \<times> pstate) option" where
  "take_key stack t =
     (case stack of
        FObj members None # rest \<Rightarrow>
          (case t of
             Lit (JStr k) \<Rightarrow> Some (FObj members (Some k) # rest, ColonNext)
           | _ \<Rightarrow> None)
      | _ \<Rightarrow> None)"

definition next_member :: "frame list \<Rightarrow> (frame list \<times> pstate) option" where
  "next_member stack =
     (case stack of
        FArr elems # rest \<Rightarrow> Some (stack, Value)
      | FObj members None # rest \<Rightarrow> Some (stack, Key)
      | _ \<Rightarrow> None)"

definition pstep :: "frame list \<Rightarrow> pstate \<Rightarrow> token \<Rightarrow> (frame list \<times> pstate) option" where
  "pstep stack st t =
     (case st of
        Value \<Rightarrow> start_value stack t
      | ValueOrClose \<Rightarrow> (if t = RBracket then close_array stack else start_value stack t)
      | KeyOrClose \<Rightarrow> (if t = RBrace then close_object stack else take_key stack t)
      | Key \<Rightarrow> take_key stack t
      | ColonNext \<Rightarrow> (if t = Colon then Some (stack, Value) else None)
      | CommaOrClose \<Rightarrow>
          (if t = Comma then next_member stack
           else if t = RBracket then close_array stack
           else if t = RBrace then close_object stack
           else None)
      | Done v \<Rightarrow> None)"

fun prun :: "frame list \<Rightarrow> pstate \<Rightarrow> token list \<Rightarrow> json option" where
  "prun stack st [] = (case st of Done v \<Rightarrow> Some v | _ \<Rightarrow> None)"
| "prun stack st (t # ts) =
     (case pstep stack st t of
        None \<Rightarrow> None
      | Some (stack', st') \<Rightarrow> prun stack' st' ts)"

definition JSON_parse :: "string \<Rightarrow> json option" where
  "JSON_parse s = (case tokens s of None \<Rightarrow> None | Some ts \<Rightarrow> prun [] Value ts)"

section \<open>The JavaScript runtime: values, strings\<close>

text \<open>The decimal digits of a natural number (a status code, an array index).\<close>

function show_nat :: "nat \<Rightarrow> string" where
  "show_nat n = (if n < 10 then [char_of (48 + n)] else show_nat (n div 10) @ [char_of (48 + n mod 10)])"
  by pat_completeness auto
termination
  by (relation "measure (\<lambda>n. n)") auto

text \<open>
  \<^verbatim>\<open>Number.prototype.toString\<close> for the number \<open>m * 10 ^ e\<close>, by the rules of the language:
  with \<open>k\<close> digits and the decimal point after the \<open>n\<close>-th of them, the digits padded with
  zeros (\<open>k \<le> n \<le> 21\<close>), or with a point inside (\<open>0 < n \<le> 21\<close>), or after \<^verbatim>\<open>0.\<close> and zeros
  (\<open>-6 < n \<le> 0\<close>), or else in exponent notation.
\<close>

definition number_to_string :: "int \<Rightarrow> int \<Rightarrow> string" where
  "number_to_string m e =
     (if m = 0 then ''0''
      else
        (let ds = show_nat (nat \<bar>m\<bar>);
             k = int (length ds);
             n = k + e;
             body =
               (if k \<le> n \<and> n \<le> 21 then ds @ replicate (nat (n - k)) (CHR ''0'')
                else if 0 < n \<and> n \<le> 21 then take (nat n) ds @ ''.'' @ drop (nat n) ds
                else if - 6 < n \<and> n \<le> 0 then ''0.'' @ replicate (nat (- n)) (CHR ''0'') @ ds
                else (if k = 1 then ds else take 1 ds @ ''.'' @ drop 1 ds)
                     @ ''e'' @ (if n - 1 < 0 then ''-'' else ''+'') @ show_nat (nat \<bar>n - 1\<bar>))
         in (if m < 0 then ''-'' else []) @ body))"

text \<open>Truthiness: \<^verbatim>\<open>null\<close>, \<^verbatim>\<open>false\<close>, zero and the empty string are falsy (and so is
  \<^verbatim>\<open>undefined\<close>, which is \<open>None\<close> where a value may be absent).\<close>

definition truthy :: "json \<Rightarrow> bool" where
  "truthy v =
     (case v of
        JNull \<Rightarrow> False
      | JBool b \<Rightarrow> b
      | JNum m e \<Rightarrow> m \<noteq> 0
      | JStr s \<Rightarrow> s \<noteq> []
      | JArr xs \<Rightarrow> True
      | JObj ps \<Rightarrow> True)"

text \<open>
  Reading a property \<^verbatim>\<open>v.k\<close> of a value other than \<^verbatim>\<open>null\<close>; \<open>None\<close> is \<^verbatim>\<open>undefined\<close>. Only an
  object has the properties the code reads by name (\<^verbatim>\<open>message\<close>, \<^verbatim>\<open>file\<close>, \<^verbatim>\<open>line\<close>,
  \<^verbatim>\<open>severity\<close>, \<^verbatim>\<open>category\<close>, \<^verbatim>\<open>snippet\<close>, \<^verbatim>\<open>suggestion\<close>, \<^verbatim>\<open>error\<close>, \<^verbatim>\<open>choices\<close>,
  \<^verbatim>\<open>content\<close>, \<^verbatim>\<open>action\<close>, \<^verbatim>\<open>number\<close>): none of them is inherited from a prototype. Of
  members with the same name the last one counts.
\<close>

definition get :: "json \<Rightarrow> string \<Rightarrow> json option" where
  "get v k = (case v of JObj ps \<Rightarrow> map_of (rev ps) k | _ \<Rightarrow> None)"

text \<open>Optional chaining, \<^verbatim>\<open>v?.k\<close> and \<^verbatim>\<open>v?.[0]\<close>: \<^verbatim>\<open>undefined\<close> when \<open>v\<close> is \<^verbatim>\<open>undefined\<close> or
  \<^verbatim>\<open>null\<close>. Index 0 of an array is its first element, of a string its first character, of
  an object its member named \<^verbatim>\<open>0\<close>.\<close>

definition opt_get :: "json option \<Rightarrow> string \<Rightarrow> json option" where
  "opt_get v k = (case v of None \<Rightarrow> None | Some JNull \<Rightarrow> None | Some w \<Rightarrow> get w k)"

definition opt_first :: "json option \<Rightarrow> json option" where
  "opt_first v =
     (case v of
        Some (JArr xs) \<Rightarrow> (case xs of [] \<Rightarrow> None | x # _ \<Rightarrow> Some x)
      | Some (JStr s) \<Rightarrow> (case s of [] \<Rightarrow> None | c # _ \<Rightarrow> Some (JStr [c]))
      | Some (JObj ps) \<Rightarrow> map_of (rev ps) ''0''
      | _ \<Rightarrow> None)"

text \<open>\<^verbatim>\<open>v || d\<close>\<close>

definition or_else :: "json option \<Rightarrow> json \<Rightarrow> json" where
  "or_else v d = (case v of None \<Rightarrow> d | Some w \<Rightarrow> if truthy w then w else d)"

text \<open>
  The string a template literal puts in for a value; \<open>None\<close> when the conversion throws a
  \<^verbatim>\<open>TypeError\<close>. An array gives its elements joined by commas, with nothing for \<^verbatim>\<open>null\<close>. An
  object gives \<^verbatim>\<open>[object Object]\<close>, unless it has a member named \<^verbatim>\<open>toString\<close>: that member
  hides the inherited method and is not callable, and the fallback \<^verbatim>\<open>valueOf\<close> gives no
  primitive value either.
\<close>

fun to_string :: "json \<Rightarrow> string option" and join_elems :: "json list \<Rightarrow> string option" where
  "to_string JNull = Some ''null''"
| "to_string (JBool b) = Some (if b then ''true'' else ''false'')"
| "to_string (JNum m e) = Some (number_to_string m e)"
| "to_string (JStr s) = Some s"
| "to_string (JArr xs) = join_elems xs"
| "to_string (JObj ps) = (if ''toString'' \<in> fst ` set ps then None else Some ''[object Object]'')"
| "join_elems [] = Some []"
| "join_elems (x # xs) =
     (case (if x = JNull then Some [] else to_string x) of
        None \<Rightarrow> None
      | Some s \<Rightarrow>
          if xs = [] then Some s
          else (case join_elems xs of None \<Rightarrow> None | Some r \<Rightarrow> Some (s @ '','' @ r)))"

text \<open>\<^verbatim>\<open>s.includes(t)\<close>: \<open>t\<close> occurs in \<open>s\<close> at some position.\<close>

fun str_includes :: "string \<Rightarrow> string \<Rightarrow> bool" where
  "str_includes [] t = (t = [])"
| "str_includes (c # cs) t = (take (length t) (c # cs) = t \<or> str_includes cs t)"

text \<open>\<^verbatim>\<open>s.trim()\<close> removes white space and line terminators at both ends; below 256 these
  are the code units 9 to 13, 32 and 160.\<close>

definition white_space :: "char \<Rightarrow> bool" where
  "white_space c = (c \<in> set [CHR 0x09, CHR 0x0A, CHR 0x0B, CHR 0x0C, CHR 0x0D, CHR 0x20, CHR 0xA0])"

definition trim :: "string \<Rightarrow> string" where
  "trim s = rev (dropWhile white_space (rev (dropWhile white_space s)))"

definition startsWith :: "string \<Rightarrow> string \<Rightarrow> bool" where
  "startsWith s p = (take (length p) s = p)"

definition endsWith :: "string \<Rightarrow> string \<Rightarrow> bool" where
  "endsWith s p = (length p \<le> length s \<and> drop (length s - length p) s = p)"

text \<open>\<^verbatim>\<open>s.toLowerCase()\<close>, on the letters below 256.\<close>

definition toLowerCase :: "string \<Rightarrow> string" where
  "toLowerCase s =
     map (\<lambda>c. let n = (of_char c :: nat) in
                if (65 \<le> n \<and> n \<le> 90) \<or> (192 \<le> n \<and> n \<le> 222 \<and> n \<noteq> 215) then char_of (n + 32) else c) s"


section \<open>File batching (aiReviewService.ts, batchFiles)\<close>

text \<open>\<^verbatim>\<open>file.patch?.length || 0\<close>\<close>

definition patchSize :: "PRFile \<Rightarrow> nat" where
  "patchSize file = (case patch file of None \<Rightarrow> 0 | Some p \<Rightarrow> length p)"

text \<open>
  The \<^verbatim>\<open>for (const file of files)\<close> loop of \<^verbatim>\<open>batchFiles\<close>, with its three mutable
  variables \<^verbatim>\<open>batches\<close>, \<^verbatim>\<open>current\<close> and \<^verbatim>\<open>currentSize\<close> passed along. It returns the
  variables as they stand when the loop ends. (The parameter \<^verbatim>\<open>files\<close> is written \<open>fs\<close>
  throughout: \<open>files\<close> is a field of the result record.)
\<close>

fun batchFiles_loop ::
  "nat \<Rightarrow> PRFile list list \<Rightarrow> PRFile list \<Rightarrow> nat \<Rightarrow> PRFile list \<Rightarrow> PRFile list list \<times> PRFile list"
where
  "batchFiles_loop maxChars batches current currentSize [] = (batches, current)"
| "batchFiles_loop maxChars batches current currentSize (file # rest) =
     (if currentSize + patchSize file > maxChars \<and> length current > 0
      then batchFiles_loop maxChars (batches @ [current]) [file] (patchSize file) rest
      else batchFiles_loop maxChars batches (current @ [file]) (currentSize + patchSize file) rest)"

definition batchFiles :: "PRFile list \<Rightarrow> nat \<Rightarrow> PRFile list list" where
  "batchFiles fs maxChars =
     (case batchFiles_loop maxChars [] [] 0 fs of
        (batches, current) \<Rightarrow>
          (let batches' = (if length current > 0 then batches @ [current] else batches)
           in if length batches' > 0 then batches' else [[]]))"

text \<open>The filter at the head of \<^verbatim>\<open>reviewPullRequest\<close>:
  \<^verbatim>\<open>f.status !== 'removed' && f.patch && f.patch.length > 0\<close>.\<close>

definition reviewable :: "PRFile \<Rightarrow> bool" where
  "reviewable f =
     (PRFile.status f \<noteq> Removed \<and> (case patch f of None \<Rightarrow> False | Some p \<Rightarrow> length p > 0))"

text \<open>The combined diff size of a batch.\<close>

definition batchSize :: "PRFile list \<Rightarrow> nat" where
  "batchSize b = sum_list (map patchSize b)"

section \<open>The remote call (aiReviewService.ts, callGroq and callGroqWithRetry)\<close>

text \<open>
  What the HTTPS request of \<^verbatim>\<open>callGroq\<close> comes back with: a response (\<^verbatim>\<open>res.statusCode\<close> and
  the collected \<^verbatim>\<open>data\<close>), the request's \<^verbatim>\<open>error\<close> event (with the message of its error),
  or the 90 second timer.
\<close>

datatype reply = Response nat string | RequestError string | Timeout

text \<open>A JavaScript \<^verbatim>\<open>Error\<close> object, by its \<^verbatim>\<open>message\<close>.\<close>

datatype js_error = Error (error_message: string)

text \<open>
  The environment of one review: \<open>replies env n\<close> is what the \<open>n\<close>-th call of the invocation
  comes back with (counted from 0), and \<open>syntax_error env data\<close> is the text
  \<^verbatim>\<open>${e}\<close> of the \<^verbatim>\<open>SyntaxError\<close> that \<^verbatim>\<open>JSON.parse(data)\<close> throws, which each engine words in
  its own way. The request text (\<^verbatim>\<open>buildReviewPrompt\<close>) is not modelled: a reply is whatever the
  environment gives for that call, which covers every way a reply may depend on the request.
\<close>

record env =
  replies :: "nat \<Rightarrow> reply"
  syntax_error :: "string \<Rightarrow> string"

text \<open>The effects of an invocation on the outside: the calls made and the waits, in
  milliseconds, in the order they happened.\<close>

record net =
  calls :: nat
  sleeps :: "nat list"

definition sleep :: "nat \<Rightarrow> net \<Rightarrow> net" where
  "sleep ms st = st\<lparr>sleeps := sleeps st @ [ms]\<rparr>"

text \<open>
  The handler of the response's \<^verbatim>\<open>end\<close> event. \<open>Inl\<close> is \<^verbatim>\<open>reject\<close>, \<open>Inr\<close> is \<^verbatim>\<open>resolve\<close>.
  The resolved \<^verbatim>\<open>text\<close> is whatever truthy value the reply holds at
  \<^verbatim>\<open>choices[0].message.content\<close>.
\<close>

definition on_end :: "env \<Rightarrow> nat \<Rightarrow> string \<Rightarrow> js_error + json" where
  "on_end env statusCode data =
     (if statusCode \<noteq> 200 then
        Inl (Error (''Groq API '' @ show_nat statusCode @ '': '' @
          (case JSON_parse data of
             None \<Rightarrow> take 300 data
           | Some errJson \<Rightarrow>
               (case opt_get (opt_get (Some errJson) ''error'') ''message'' of
                  None \<Rightarrow> take 300 data
                | Some m \<Rightarrow>
                    if truthy m
                    then (case to_string m of None \<Rightarrow> take 300 data | Some s \<Rightarrow> s)
                    else take 300 data))))
      else
        (case JSON_parse data of
           None \<Rightarrow> Inl (Error (''Failed to parse Groq response: '' @ syntax_error env data))
         | Some json \<Rightarrow>
             (case opt_get (opt_get (opt_first (opt_get (Some json) ''choices'')) ''message'') ''content'' of
                None \<Rightarrow> Inl (Error ''Empty response from Groq'')
              | Some text \<Rightarrow>
                  if truthy text then Inr text else Inl (Error ''Empty response from Groq''))))"

definition callGroq :: "env \<Rightarrow> net \<Rightarrow> (js_error + json) \<times> net" where
  "callGroq env st =
     ((case replies env (calls st) of
         Response statusCode data \<Rightarrow> on_end env statusCode data
       | RequestError msg \<Rightarrow> Inl (Error msg)
       | Timeout \<Rightarrow> Inl (Error ''Groq API timeout (90s)'')),
      st\<lparr>calls := calls st + 1\<rparr>)"

text \<open>The \<^verbatim>\<open>for (let attempt = 1; attempt <= maxRetries; attempt++)\<close> loop of
  \<^verbatim>\<open>callGroqWithRetry\<close>, from a given \<^verbatim>\<open>attempt\<close> on.\<close>

text \<open>(The call is written out where its result is used: \<open>fst\<close> of it is what the promise
  settles with, \<open>snd\<close> the state after it.)\<close>

function callGroqWithRetry_loop :: "env \<Rightarrow> nat \<Rightarrow> nat \<Rightarrow> net \<Rightarrow> (js_error + json) \<times> net" where
  "callGroqWithRetry_loop env maxRetries attempt st =
     (if attempt \<le> maxRetries then
        (case fst (callGroq env st) of
           Inr text \<Rightarrow> callGroq env st
         | Inl err \<Rightarrow>
             if str_includes (error_message err) ''429'' \<and> attempt < maxRetries
             then callGroqWithRetry_loop env maxRetries (attempt + 1)
                    (sleep (attempt * 10 * 1000) (snd (callGroq env st)))
             else callGroq env st)
      else (Inl (Error ''Groq API: max retries exhausted''), st))"
  by pat_completeness auto
termination
  by (relation "measure (\<lambda>(env, maxRetries, attempt, st). Suc maxRetries - attempt)") auto

definition callGroqWithRetry :: "env \<Rightarrow> nat \<Rightarrow> net \<Rightarrow> (js_error + json) \<times> net" where
  "callGroqWithRetry env maxRetries st = callGroqWithRetry_loop env maxRetries 1 st"


section \<open>Reading the reply (aiReviewService.ts, parseAIResponse and the normalizers)\<close>

text \<open>The first \<^verbatim>\<open>replace\<close>, with the pattern \<^verbatim>\<open>^```(?:json)?\n?\<close>, on a string that starts
  with three backticks: the backticks go, then \<^verbatim>\<open>json\<close> if it follows, then one line feed
  if it follows.\<close>

definition strip_open_fence :: "string \<Rightarrow> string" where
  "strip_open_fence s =
     (let s1 = drop 3 s;
          s2 = (if startsWith s1 ''json'' then drop 4 s1 else s1)
      in if startsWith s2 [CHR 0x0A] then drop 1 s2 else s2)"

text \<open>The second \<^verbatim>\<open>replace\<close>, with the pattern \<^verbatim>\<open>\n?```$\<close>: three backticks at the very
  end go, with the line feed before them if there is one.\<close>

definition strip_close_fence :: "string \<Rightarrow> string" where
  "strip_close_fence s =
     (if endsWith s (CHR 0x0A # ''```'') then take (length s - 4) s
      else if endsWith s ''```'' then take (length s - 3) s
      else s)"

text \<open>\<^verbatim>\<open>cleaned.match(/\[[\s\S]*\]/)\<close>: the star is greedy, so the match runs from the first
  opening bracket to the last closing bracket after it; there is none when no closing
  bracket follows the first opening one.\<close>

definition jsonMatch :: "string \<Rightarrow> string option" where
  "jsonMatch cleaned =
     (case dropWhile (\<lambda>c. c \<noteq> CHR ''['') cleaned of
        [] \<Rightarrow> None
      | b # after \<Rightarrow>
          (case dropWhile (\<lambda>c. c \<noteq> CHR '']'') (rev after) of
             [] \<Rightarrow> None
           | e # before \<Rightarrow> Some (b # rev (e # before))))"

text \<open>
  \<^verbatim>\<open>map[(s || '').toLowerCase()] || 'info'\<close>. The argument is \<open>None\<close> for \<^verbatim>\<open>undefined\<close>. The
  result is \<open>None\<close> when the call throws a \<^verbatim>\<open>TypeError\<close>: a truthy value that is not a string
  has no \<^verbatim>\<open>toLowerCase\<close> method.
\<close>

definition severity_map :: "(string \<times> severity) list" where
  "severity_map =
     [(''error'', SevError), (''critical'', SevError), (''high'', SevError),
      (''warning'', SevWarning), (''warn'', SevWarning), (''medium'', SevWarning),
      (''info'', SevInfo), (''low'', SevInfo), (''information'', SevInfo),
      (''suggestion'', SevSuggestion), (''hint'', SevSuggestion), (''enhancement'', SevSuggestion)]"

definition inherited_key :: "string \<Rightarrow> bool" where
  "inherited_key k = (k = ''constructor'' \<or> k = ''__proto__'')"

definition normalizeSeverity :: "json option \<Rightarrow> severity option" where
  "normalizeSeverity s =
     (case or_else s (JStr []) of
        JStr str \<Rightarrow>
          (case map_of severity_map (toLowerCase str) of
             Some v \<Rightarrow> Some v
           | None \<Rightarrow>
               if inherited_key (toLowerCase str) then Some (SevInherited (toLowerCase str))
               else Some SevInfo)
      | _ \<Rightarrow> None)"

definition category_map :: "(string \<times> category) list" where
  "category_map =
     [(''security'', Security), (''performance'', Performance),
      (''error-handling'', ErrorHandling), (''error handling'', ErrorHandling),
      (''best-practice'', BestPractice), (''best-practices'', BestPractice),
      (''best practice'', BestPractice), (''complexity'', Complexity),
      (''naming'', Naming), (''debug-statement'', DebugStatement),
      (''debug'', DebugStatement), (''debug-statements'', DebugStatement),
      (''todo-comment'', TodoComment), (''todo'', TodoComment),
      (''large-file'', LargeFile), (''merge-conflict'', MergeConflict),
      (''duplicate-code'', DuplicateCode), (''code-quality'', BestPractice)]"

definition normalizeCategory :: "json option \<Rightarrow> category option" where
  "normalizeCategory c =
     (case or_else c (JStr []) of
        JStr str \<Rightarrow>
          (case map_of category_map (toLowerCase str) of
             Some v \<Rightarrow> Some v
           | None \<Rightarrow>
               if inherited_key (toLowerCase str) then Some (CatInherited (toLowerCase str))
               else Some BestPractice)
      | _ \<Rightarrow> None)"

text \<open>The filter callback \<^verbatim>\<open>item => item && item.message\<close>.\<close>

definition has_message :: "json \<Rightarrow> bool" where
  "has_message item =
     (truthy item \<and> (case get item ''message'' of None \<Rightarrow> False | Some m \<Rightarrow> truthy m))"

text \<open>\<^verbatim>\<open>x || undefined\<close>\<close>

definition or_undefined :: "json option \<Rightarrow> json option" where
  "or_undefined v = (case v of None \<Rightarrow> None | Some w \<Rightarrow> if truthy w then Some w else None)"

text \<open>
  The map callback, for the element \<open>item\<close> at index \<open>idx\<close> of the filtered array. It is
  \<open>None\<close> when building the issue throws a \<^verbatim>\<open>TypeError\<close>: in the template string of the id
  (a value that has no string form) or in a normalizer.
\<close>

definition to_issue :: "nat \<Rightarrow> json \<Rightarrow> ReviewIssue option" where
  "to_issue idx item =
     (case to_string (or_else (get item ''file'') (JStr ''unknown'')) of
        None \<Rightarrow> None
      | Some file_text \<Rightarrow>
          (case to_string (or_else (get item ''line'') (mk_num (int idx) 0)) of
             None \<Rightarrow> None
           | Some line_text \<Rightarrow>
               (case normalizeSeverity (get item ''severity'') of
                  None \<Rightarrow> None
                | Some sev \<Rightarrow>
                    (case normalizeCategory (get item ''category'') of
                       None \<Rightarrow> None
                     | Some cat \<Rightarrow>
                         Some \<lparr>issue_id = ''ai-'' @ file_text @ ''-'' @ line_text @ ''-'' @ show_nat idx,
                               issue_file = or_else (get item ''file'') (JStr ''unknown''),
                               line = (case get item ''line'' of
                                         Some (JNum m e) \<Rightarrow> JNum m e
                                       | _ \<Rightarrow> JNum 0 0),
                               severity = sev,
                               category = cat,
                               message = or_else (get item ''message'') JNull,
                               snippet = or_undefined (get item ''snippet''),
                               suggestion = or_undefined (get item ''suggestion'')\<rparr>))))"

text \<open>
  \<^verbatim>\<open>parseAIResponse\<close>; \<open>cleaned\<close> is the value of its variable \<^verbatim>\<open>cleaned\<close> at the match.
  The whole body is inside \<^verbatim>\<open>try\<close>, and the \<^verbatim>\<open>catch\<close> returns the empty array: a response
  that is not a string (no \<^verbatim>\<open>trim\<close> method), a \<^verbatim>\<open>SyntaxError\<close> of \<^verbatim>\<open>JSON.parse\<close> and a
  \<^verbatim>\<open>TypeError\<close> of the map callback all end there. (\<^verbatim>\<open>Array.isArray\<close> is the case
  distinction on \<open>parsed\<close>.)
\<close>

definition cleaned :: "string \<Rightarrow> string" where
  "cleaned text =
     (if startsWith (trim text) ''```''
      then strip_close_fence (strip_open_fence (trim text))
      else trim text)"

definition parseAIResponse :: "json \<Rightarrow> ReviewIssue list" where
  "parseAIResponse response =
     (case response of
        JStr text \<Rightarrow>
          (case jsonMatch (cleaned text) of
             None \<Rightarrow> []
           | Some matched \<Rightarrow>
               (case JSON_parse matched of
                  None \<Rightarrow> []
                | Some parsed \<Rightarrow>
                    (case parsed of
                       JArr items \<Rightarrow>
                         (case those (map (\<lambda>(idx, item). to_issue idx item)
                                        (enumerate 0 (filter has_message items))) of
                            None \<Rightarrow> []
                          | Some found \<Rightarrow> found)
                     | _ \<Rightarrow> [])))
      | _ \<Rightarrow> [])"

section \<open>The review (aiReviewService.ts, reviewPullRequest and buildSummary)\<close>

definition buildSummary :: "ReviewIssue list \<Rightarrow> nat \<Rightarrow> ReviewSummary" where
  "buildSummary found n =
     \<lparr>totalFiles = n,
      totalIssues = length found,
      errors = length (filter (\<lambda>i. severity i = SevError) found),
      warnings = length (filter (\<lambda>i. severity i = SevWarning) found),
      info = length (filter (\<lambda>i. severity i = SevInfo) found),
      suggestions = length (filter (\<lambda>i. severity i = SevSuggestion) found)\<rparr>"

text \<open>The variables of \<^verbatim>\<open>reviewPullRequest\<close> that its batch loop changes, with the effects
  on the outside.\<close>

record review_state =
  outside :: net
  allIssues :: "ReviewIssue list"
  apiErrorOccurred :: bool
  lastApiError :: string

text \<open>
  The loop \<^verbatim>\<open>for (let bIdx = 0; bIdx < batches.length; bIdx++)\<close>: one
  \<^verbatim>\<open>callGroqWithRetry\<close> per batch, whatever the batch holds; a failure is caught, recorded,
  and the loop goes on. The batch itself only goes into the request text.
\<close>

fun review_batches :: "env \<Rightarrow> PRFile list list \<Rightarrow> review_state \<Rightarrow> review_state" where
  "review_batches env [] s = s"
| "review_batches env (batch # rest) s =
     (case callGroqWithRetry env 3 (outside s) of
        (Inr response, st) \<Rightarrow>
          review_batches env rest
            (s\<lparr>outside := st, allIssues := allIssues s @ parseAIResponse response\<rparr>)
      | (Inl err, st) \<Rightarrow>
          review_batches env rest
            (s\<lparr>outside := st, apiErrorOccurred := True, lastApiError := error_message err\<rparr>))"

text \<open>The issue pushed after the loop when the condition
  \<^verbatim>\<open>apiErrorOccurred && allIssues.length === 0 && reviewableFiles.length > 0\<close> holds.\<close>

definition api_error_issue :: "string \<Rightarrow> string \<Rightarrow> ReviewIssue" where
  "api_error_issue name lastError =
     \<lparr>issue_id = ''ai-api-error'',
      issue_file = JStr name,
      line = JNum 0 0,
      severity = SevError,
      category = BestPractice,
      message = JStr (''AI review failed: '' @ lastError @ ''. Check your Groq API key and try again.''),
      snippet = None,
      suggestion = Some (JStr ''Get a free API key at https://console.groq.com/keys'')\<rparr>"

definition with_api_error :: "PRFile list \<Rightarrow> review_state \<Rightarrow> ReviewIssue list" where
  "with_api_error reviewableFiles s =
     (if apiErrorOccurred s \<and> length (allIssues s) = 0 \<and> length reviewableFiles > 0
      then allIssues s @ [api_error_issue (PRFile.filename (hd reviewableFiles)) (lastApiError s)]
      else allIssues s)"

text \<open>The loop \<^verbatim>\<open>for (const file of files)\<close> that builds the file results.\<close>

definition file_result :: "ReviewIssue list \<Rightarrow> PRFile \<Rightarrow> FileReviewResult" where
  "file_result found f =
     \<lparr>FileReviewResult.filename = PRFile.filename f,
      status = PRFile.status f,
      additions = PRFile.additions f,
      deletions = PRFile.deletions f,
      issues = filter (\<lambda>i. issue_file i = JStr (PRFile.filename f)) found\<rparr>"

definition review_status_of :: "ReviewSummary \<Rightarrow> review_status" where
  "review_status_of sm = (if errors sm > 0 then Fail else if warnings sm > 0 then Warn else Pass)"

text \<open>
  \<^verbatim>\<open>reviewPullRequest\<close>. Besides the result it returns the effects on the outside (the calls
  made, the waits). \<^verbatim>\<open>headSha\<close>, \<^verbatim>\<open>enabledCategories\<close> and \<^verbatim>\<open>customRules\<close> only go into the
  request text.
\<close>

definition reviewPullRequest ::
  "env \<Rightarrow> int \<Rightarrow> string \<Rightarrow> string \<Rightarrow> string \<Rightarrow> PRFile list \<Rightarrow> string list \<Rightarrow> string list
   \<Rightarrow> ReviewResult \<times> net"
where
  "reviewPullRequest env prNum title branch headSha fs enabledCategories customRules =
     (let reviewableFiles = filter reviewable fs;
          batches = batchFiles reviewableFiles 25000;
          s = review_batches env batches
                \<lparr>outside = \<lparr>calls = 0, sleeps = []\<rparr>, allIssues = [],
                 apiErrorOccurred = False, lastApiError = []\<rparr>;
          found = with_api_error reviewableFiles s;
          sm = buildSummary found (length fs)
      in (\<lparr>prNumber = prNum, prTitle = title, branchName = branch,
           summary = sm, issues = found, files = map (file_result found) fs,
           status = review_status_of sm\<rparr>,
          outside s))"

section \<open>The webhook gateway (webhookServer.ts)\<close>

text \<open>
  A request as \<^verbatim>\<open>handleRequest\<close> reads it: method (\<open>http_method\<close>), URL, the two headers (absent is \<open>None\<close>)
  and the text of the body.
\<close>

record request =
  http_method :: string
  url :: string
  x_hub_signature_256 :: "string option"
  x_github_event :: "string option"
  body :: string

text \<open>The JSON bodies the gateway answers with, by their fields (the health answer's
  timestamp is left out).\<close>

datatype answer =
    MethodNotAllowed
  | HealthOk
  | NotFound
  | InvalidSignature
  | EventIgnored "string option"
  | ActionIgnored "json option"
  | ReviewTriggered "json option" json
  | InvalidJSON

text \<open>\<^verbatim>\<open>Buffer.from(s)\<close>: the UTF-8 bytes of a string, for code units below 256.\<close>

definition utf8 :: "string \<Rightarrow> nat list" where
  "utf8 s =
     concat (map (\<lambda>c. let n = (of_char c :: nat) in
                        if n < 128 then [n] else [192 + n div 64, 128 + n mod 64]) s)"

text \<open>
  The exceptions that leave the \<^verbatim>\<open>end\<close> handler of a request uncaught.
  \<^verbatim>\<open>crypto.timingSafeEqual\<close> throws a \<^verbatim>\<open>RangeError\<close> when its two arguments differ in byte
  length. \<^verbatim>\<open>res.writeHead\<close> throws the error \<^verbatim>\<open>ERR_HTTP_HEADERS_SENT\<close> (here \<open>HeadersSent\<close>)
  when the head of the answer has been written before.
\<close>

datatype exception = RangeError | HeadersSent

definition timingSafeEqual :: "nat list \<Rightarrow> nat list \<Rightarrow> exception + bool" where
  "timingSafeEqual a b = (if length a \<noteq> length b then Inl RangeError else Inr (a = b))"

text \<open>
  \<^verbatim>\<open>verifySignature\<close>. The keyed hash is Node's; it is the parameter \<open>hmac\<close>, with
  \<open>hmac key payload\<close> for
  \<^verbatim>\<open>crypto.createHmac('sha256', key).update(payload).digest('hex')\<close>.
\<close>

definition verifySignature ::
  "(string \<Rightarrow> string \<Rightarrow> string) \<Rightarrow> string \<Rightarrow> string \<Rightarrow> string option \<Rightarrow> exception + bool"
where
  "verifySignature hmac secret payload signature =
     (case signature of
        None \<Rightarrow> Inr False
      | Some sig \<Rightarrow>
          if sig = [] then Inr False
          else timingSafeEqual (utf8 sig) (utf8 (''sha256='' @ hmac secret payload)))"

definition relevantActions :: "string list" where
  "relevantActions = [''opened'', ''synchronize'', ''reopened'', ''ready_for_review'']"

text \<open>\<^verbatim>\<open>`${v}`\<close> does not throw: \<open>v\<close> is \<^verbatim>\<open>undefined\<close> or has a string form.\<close>

definition has_string_form :: "json option \<Rightarrow> bool" where
  "has_string_form v = (case v of None \<Rightarrow> True | Some w \<Rightarrow> to_string w \<noteq> None)"

text \<open>
  The branch of the \<^verbatim>\<open>end\<close> handler for an action that is not relevant:
  \<^verbatim>\<open>res.writeHead(200)\<close>, then the message is built with \<^verbatim>\<open>payload.action\<close> in a template
  literal, then \<^verbatim>\<open>res.end\<close>. When the action has no string form, the literal throws after
  the head has been written; the \<^verbatim>\<open>catch\<close> calls \<^verbatim>\<open>res.writeHead(400)\<close>, which throws
  because of the head already written, and nothing catches that: no answer is sent.
\<close>

definition action_ignored :: "json option \<Rightarrow> exception + ((nat \<times> answer) \<times> json list)" where
  "action_ignored act =
     (if has_string_form act then Inr ((200, ActionIgnored act), []) else Inl HeadersSent)"

text \<open>
  What follows the signature check in the \<^verbatim>\<open>end\<close> handler. \<open>Inr\<close> is the answer (status
  code and body) with the events fired on \<^verbatim>\<open>onPullRequestEvent\<close>; \<open>Inl\<close> is an exception
  that leaves the handler uncaught, with no answer sent and no event fired. Reading
  \<^verbatim>\<open>payload.action\<close> of \<^verbatim>\<open>null\<close> throws inside the \<^verbatim>\<open>try\<close> before any head is written, as a
  \<^verbatim>\<open>SyntaxError\<close> does. For a relevant action the event is fired and the answer sent before
  anything else; the notification shown after that is not modelled.
\<close>

definition dispatch :: "request \<Rightarrow> exception + ((nat \<times> answer) \<times> json list)" where
  "dispatch req =
     (if x_github_event req \<noteq> Some ''pull_request''
      then Inr ((200, EventIgnored (x_github_event req)), [])
      else
        (case JSON_parse (body req) of
           None \<Rightarrow> Inr ((400, InvalidJSON), [])
         | Some payload \<Rightarrow>
             if payload = JNull then Inr ((400, InvalidJSON), [])
             else
               (case get payload ''action'' of
                  Some (JStr a) \<Rightarrow>
                    if a \<in> set relevantActions
                    then Inr ((200, ReviewTriggered (get payload ''number'') (JStr a)), [payload])
                    else action_ignored (Some (JStr a))
                | other \<Rightarrow> action_ignored other)))"

text \<open>
  \<^verbatim>\<open>handleRequest\<close> for a server with the given \<^verbatim>\<open>secret\<close>. \<open>Inl\<close> is an exception that
  leaves the \<^verbatim>\<open>end\<close> handler uncaught: no answer is sent and no event is fired.
\<close>

definition handleRequest ::
  "(string \<Rightarrow> string \<Rightarrow> string) \<Rightarrow> string \<Rightarrow> request \<Rightarrow> exception + ((nat \<times> answer) \<times> json list)"
where
  "handleRequest hmac secret req =
     (if http_method req \<noteq> ''POST'' then Inr ((405, MethodNotAllowed), [])
      else if url req = ''/health'' then Inr ((200, HealthOk), [])
      else if url req \<noteq> ''/webhook'' \<and> url req \<noteq> ''/'' then Inr ((404, NotFound), [])
      else if secret \<noteq> [] then
        (case verifySignature hmac secret (body req) (x_hub_signature_256 req) of
           Inl ex \<Rightarrow> Inl ex
         | Inr ok \<Rightarrow>
             if \<not> ok then Inr ((401, InvalidSignature), [])
             else dispatch req)
      else dispatch req)"

section \<open>Concrete inputs\<close>

text \<open>A diff of \<open>n\<close> characters, a modified file with such a diff, and a removed file (which
  comes without a patch).\<close>

definition diff_of_size :: "nat \<Rightarrow> string" where
  "diff_of_size n = replicate n (CHR ''+'')"

definition changed_file :: "string \<Rightarrow> nat \<Rightarrow> PRFile" where
  "changed_file name n =
     \<lparr>PRFile.filename = name, status = Modified, additions = int n, deletions = 0,
      patch = Some (diff_of_size n)\<rparr>"

definition removed_file :: "string \<Rightarrow> PRFile" where
  "removed_file name =
     \<lparr>PRFile.filename = name, status = Removed, additions = 0, deletions = 3, patch = None\<rparr>"

text \<open>Replies of the remote service, and environments that give them.\<close>

definition backslash :: string where
  "backslash = [CHR 0x5C]"

definition empty_array_reply :: string where
  \<open>empty_array_reply = ''{"choices":[{"message":{"content":"[]"}}]}''\<close>

definition server_error_body :: string where
  \<open>server_error_body = ''{"error":{"message":"Internal server error"}}''\<close>

definition mentions_429_body :: string where
  \<open>mentions_429_body = ''{"error":{"message":"upstream returned 429"}}''\<close>

definition issue_without_file_reply :: string where
  \<open>issue_without_file_reply =
     ''{"choices":[{"message":{"content":"[{'' @ backslash @ ''"message'' @ backslash @ ''":''
       @ backslash @ ''"m'' @ backslash @ ''"}]"}}]}''\<close>

definition engine_wording :: "string \<Rightarrow> string" where
  "engine_wording data = ''SyntaxError: Unexpected token''"

definition always_empty_array :: env where
  "always_empty_array = \<lparr>replies = (\<lambda>n. Response 200 empty_array_reply), syntax_error = engine_wording\<rparr>"

definition first_ok_then_500 :: env where
  "first_ok_then_500 =
     \<lparr>replies = (\<lambda>n. if n = 0 then Response 200 empty_array_reply else Response 500 server_error_body),
      syntax_error = engine_wording\<rparr>"

definition always_500_mentioning_429 :: env where
  "always_500_mentioning_429 =
     \<lparr>replies = (\<lambda>n. Response 500 mentions_429_body), syntax_error = engine_wording\<rparr>"

definition one_issue_without_file :: env where
  "one_issue_without_file =
     \<lparr>replies = (\<lambda>n. Response 200 issue_without_file_reply), syntax_error = engine_wording\<rparr>"

text \<open>The issue read from \<^verbatim>\<open>[{"message":"m"}]\<close>: it names no file.\<close>

definition unattributed_issue :: ReviewIssue where
  "unattributed_issue =
     \<lparr>issue_id = ''ai-unknown-0-0'', issue_file = JStr ''unknown'', line = JNum 0 0,
      severity = SevInfo, category = BestPractice, message = JStr ''m'',
      snippet = None, suggestion = None\<rparr>"

text \<open>Two replies for the parser: an array followed by a bracketed reference, and an
  empty array in a fence after a greeting (with the body and the environment that carry
  it).\<close>

definition array_then_reference :: string where
  \<open>array_then_reference = ''[{"message":"m"}] See [1].''\<close>

definition fenced_payload :: string where
  \<open>fenced_payload = ''Sure! ```json\<newline>[]\<newline>```''\<close>

definition fenced_reply :: string where
  \<open>fenced_reply =
     ''{"choices":[{"message":{"content":"Sure! ```json'' @ backslash @ ''n[]'' @ backslash @ ''n```"}}]}''\<close>

definition fenced_empty_array :: env where
  "fenced_empty_array = \<lparr>replies = (\<lambda>n. Response 200 fenced_reply), syntax_error = engine_wording\<rparr>"

text \<open>A request for the webhook path with the pull-request event type and no signature,
  and a stand-in for the keyed hash where no secret is configured (it is never called
  then).\<close>

definition unused_hash :: "string \<Rightarrow> string \<Rightarrow> string" where
  "unused_hash key payload = []"

definition pull_request_event :: "string \<Rightarrow> request" where
  "pull_request_event text =
     \<lparr>http_method = ''POST'', url = ''/webhook'', x_hub_signature_256 = None,
      x_github_event = Some ''pull_request'', body = text\<rparr>"

section \<open>The words of the specification, for comparison\<close>

text \<open>
  The specification lets the parser locate "the first syntactically complete JSON array
  substring": of the substrings that start with an opening bracket and parse as a JSON
  array, the one that starts first (from a given start there is at most one, the shortest).
  This definition follows these words, not the code; the code is \<open>jsonMatch\<close>.
\<close>

definition is_json_array :: "string \<Rightarrow> bool" where
  "is_json_array s =
     (startsWith s ''['' \<and> (case JSON_parse s of Some (JArr items) \<Rightarrow> True | _ \<Rightarrow> False))"

fun spec_first_complete_array :: "string \<Rightarrow> string option" where
  "spec_first_complete_array [] = None"
| "spec_first_complete_array (c # cs) =
     (case find is_json_array (map (\<lambda>n. take n (c # cs)) [1..<Suc (Suc (length cs))]) of
        Some m \<Rightarrow> Some m
      | None \<Rightarrow> spec_first_complete_array cs)"

section \<open>Properties of the batching\<close>

text \<open>A batch is closed only when the next file would take it over the ceiling: of two
  neighbouring batches, the second has a first file, and the first batch together with
  that file exceeds \<open>maxChars\<close>.\<close>

fun closed_when_full :: "nat \<Rightarrow> PRFile list list \<Rightarrow> bool" where
  "closed_when_full maxChars (b # c # rest) =
     ((case c of [] \<Rightarrow> False | f # _ \<Rightarrow> batchSize b + patchSize f > maxChars)
      \<and> closed_when_full maxChars (c # rest))"
| "closed_when_full maxChars _ = True"

text \<open>A batch of two or more files stays within the ceiling (a single file may exceed it).\<close>

definition within_ceiling :: "nat \<Rightarrow> PRFile list \<Rightarrow> bool" where
  "within_ceiling maxChars b = (length b < 2 \<or> batchSize b \<le> maxChars)"

text \<open>The invariant of the loop of \<^verbatim>\<open>batchFiles\<close>.\<close>

definition loop_inv :: "nat \<Rightarrow> PRFile list list \<Rightarrow> PRFile list \<Rightarrow> nat \<Rightarrow> bool" where
  "loop_inv m bs cur sz =
     (sz = batchSize cur \<and> [] \<notin> set bs \<and> (cur = [] \<longrightarrow> bs = []) \<and>
      list_all (within_ceiling m) bs \<and> within_ceiling m cur \<and>
      (cur \<noteq> [] \<longrightarrow> closed_when_full m (bs @ [cur])))"

lemma loop_close:
  "sz + patchSize f > m \<Longrightarrow> cur \<noteq> [] \<Longrightarrow>
   batchFiles_loop m bs cur sz (f # fs) = batchFiles_loop m (bs @ [cur]) [f] (patchSize f) fs"
  by simp

lemma loop_add:
  "\<not> (sz + patchSize f > m \<and> cur \<noteq> []) \<Longrightarrow>
   batchFiles_loop m bs cur sz (f # fs) = batchFiles_loop m bs (cur @ [f]) (sz + patchSize f) fs"
  by auto

lemma batchSize_snoc: "batchSize (b @ [f]) = batchSize b + patchSize f"
  by (simp add: batchSize_def)

lemma batchSize_single: "batchSize [f] = patchSize f"
  by (simp add: batchSize_def)

lemma closed_when_full_grow_last:
  "closed_when_full m (L @ [b]) \<Longrightarrow> b \<noteq> [] \<Longrightarrow> closed_when_full m (L @ [b @ [f]])"
proof (induction L)
  case Nil
  then show ?case by simp
next
  case (Cons a L)
  then show ?case by (cases L; cases b) simp_all
qed

lemma closed_when_full_snoc:
  "closed_when_full m (L @ [b]) \<Longrightarrow> batchSize b + patchSize f > m \<Longrightarrow>
   closed_when_full m (L @ [b, [f]])"
proof (induction L)
  case Nil
  then show ?case by simp
next
  case (Cons a L)
  then show ?case by (cases L) simp_all
qed

lemma loop_inv_close:
  assumes "loop_inv m bs cur sz" "sz + patchSize f > m" "cur \<noteq> []"
  shows "loop_inv m (bs @ [cur]) [f] (patchSize f)"
proof -
  have "closed_when_full m (bs @ [cur, [f]])"
    using assms by (intro closed_when_full_snoc) (simp_all add: loop_inv_def)
  then show ?thesis
    using assms by (simp add: loop_inv_def batchSize_single within_ceiling_def)
qed

lemma loop_inv_add:
  assumes "loop_inv m bs cur sz" "\<not> (sz + patchSize f > m \<and> cur \<noteq> [])"
  shows "loop_inv m bs (cur @ [f]) (sz + patchSize f)"
proof (cases "cur = []")
  case True
  with assms show ?thesis
    by (simp add: loop_inv_def batchSize_def within_ceiling_def)
next
  case False
  with assms have le: "batchSize cur + patchSize f \<le> m" by (simp add: loop_inv_def)
  have "closed_when_full m (bs @ [cur @ [f]])"
    using assms False by (intro closed_when_full_grow_last) (simp_all add: loop_inv_def)
  then show ?thesis
    using assms False le by (simp add: loop_inv_def batchSize_snoc within_ceiling_def)
qed

lemma loop_inv_result:
  "batchFiles_loop m bs cur sz fs = (bs', cur') \<Longrightarrow> loop_inv m bs cur sz \<Longrightarrow>
   (\<exists>sz'. loop_inv m bs' cur' sz') \<and> concat bs' @ cur' = concat bs @ cur @ fs"
proof (induction fs arbitrary: bs cur sz)
  case Nil
  then show ?case by auto
next
  case (Cons f fs)
  show ?case
  proof (cases "sz + patchSize f > m \<and> cur \<noteq> []")
    case True
    then have "batchFiles_loop m (bs @ [cur]) [f] (patchSize f) fs = (bs', cur')"
      using Cons.prems(1) by simp
    from Cons.IH[OF this loop_inv_close] True Cons.prems(2) show ?thesis by simp
  next
    case False
    then have "batchFiles_loop m bs (cur @ [f]) (sz + patchSize f) fs = (bs', cur')"
      using Cons.prems(1) loop_add[OF False] by simp
    from Cons.IH[OF this loop_inv_add] False Cons.prems(2) show ?thesis by simp
  qed
qed

lemma loop_inv_init: "loop_inv m [] [] 0"
  by (simp add: loop_inv_def batchSize_def within_ceiling_def)

lemma batchFiles_cases:
  obtains (none) "fs = []" "batchFiles fs m = [[]]"
  | (some) bs cur sz where "fs \<noteq> []" "batchFiles fs m = bs @ [cur]" "cur \<noteq> []"
      "loop_inv m bs cur sz" "concat (bs @ [cur]) = fs"
proof -
  obtain bs cur where r: "batchFiles_loop m [] [] 0 fs = (bs, cur)"
    by (cases "batchFiles_loop m [] [] 0 fs")
  from loop_inv_result[OF r loop_inv_init] obtain sz
    where inv: "loop_inv m bs cur sz" and cc: "concat bs @ cur = fs" by auto
  show thesis
  proof (cases "cur = []")
    case True
    with inv have "bs = []" by (simp add: loop_inv_def)
    with True cc r have "fs = []" "batchFiles fs m = [[]]"
      by (simp_all add: batchFiles_def)
    then show thesis by (rule none)
  next
    case False
    with cc have "fs \<noteq> []" by auto
    moreover have "batchFiles fs m = bs @ [cur]"
      using r False by (simp add: batchFiles_def)
    ultimately show thesis using False inv cc by (intro some[of bs cur sz]) simp_all
  qed
qed

lemma batchFiles_concat: "concat (batchFiles fs m) = fs"
  by (cases fs m rule: batchFiles_cases) simp_all

lemma batchFiles_nonempty: "fs \<noteq> [] \<Longrightarrow> [] \<notin> set (batchFiles fs m)"
  by (cases fs m rule: batchFiles_cases) (simp_all add: loop_inv_def)

lemma batchFiles_Nil: "batchFiles [] m = [[]]"
  by (simp add: batchFiles_def)

lemma batchFiles_within: "list_all (within_ceiling m) (batchFiles fs m)"
  by (cases fs m rule: batchFiles_cases) (simp_all add: loop_inv_def within_ceiling_def)

lemma batchFiles_closed_when_full: "closed_when_full m (batchFiles fs m)"
  by (cases fs m rule: batchFiles_cases) (simp_all add: loop_inv_def)

lemma batchFiles_three:
  "patchSize f1 = 10000 \<Longrightarrow> patchSize f2 = 10000 \<Longrightarrow> patchSize f3 = 10000 \<Longrightarrow>
   batchFiles [f1, f2, f3] 25000 = [[f1, f2], [f3]]"
  by (simp add: batchFiles_def)


lemma patchSize_changed_file: "patchSize (changed_file name n) = n"
  by (simp add: patchSize_def changed_file_def diff_of_size_def)

lemma reviewable_changed_file: "reviewable (changed_file name n) = (0 < n)"
  by (simp add: reviewable_def changed_file_def diff_of_size_def)

lemma reviewable_removed_file: "\<not> reviewable (removed_file name)"
  by (simp add: reviewable_def removed_file_def)

text \<open>
  Claim C3, as the code has it. The files that are not removed and have a non-empty diff
  are batched in input order: the batches, one after the other, are exactly these files
  (each in one batch, order kept within and across batches). A batch is closed only when
  the next file would take it over the ceiling, and a batch of several files stays within
  the ceiling. Every batch is non-empty when there is a reviewable file; when there is
  none, the result is the single empty batch. Three files with diffs of 10,000 characters
  each give the batches [f1, f2] and [f3] under the ceiling of 25,000.
\<close>

theorem batching_is_greedy:
  "concat (batchFiles (filter reviewable fs) maxChars) = filter reviewable fs
   \<and> closed_when_full maxChars (batchFiles (filter reviewable fs) maxChars)
   \<and> list_all (within_ceiling maxChars) (batchFiles (filter reviewable fs) maxChars)
   \<and> (filter reviewable fs \<noteq> [] \<longrightarrow> [] \<notin> set (batchFiles (filter reviewable fs) maxChars))
   \<and> (filter reviewable fs = [] \<longrightarrow> batchFiles (filter reviewable fs) maxChars = [[]])
   \<and> (\<forall>f1 f2 f3.
         reviewable f1 \<and> reviewable f2 \<and> reviewable f3 \<and>
         patchSize f1 = 10000 \<and> patchSize f2 = 10000 \<and> patchSize f3 = 10000 \<longrightarrow>
         batchFiles (filter reviewable [f1, f2, f3]) 25000 = [[f1, f2], [f3]])"
proof -
  have "\<And>f1 f2 f3. reviewable f1 \<Longrightarrow> reviewable f2 \<Longrightarrow> reviewable f3 \<Longrightarrow>
          patchSize f1 = 10000 \<Longrightarrow> patchSize f2 = 10000 \<Longrightarrow> patchSize f3 = 10000 \<Longrightarrow>
          batchFiles (filter reviewable [f1, f2, f3]) 25000 = [[f1, f2], [f3]]"
    by (simp add: batchFiles_three)
  then show ?thesis
    using batchFiles_concat[of "filter reviewable fs" maxChars]
      batchFiles_closed_when_full[of maxChars "filter reviewable fs"]
      batchFiles_within[of maxChars "filter reviewable fs"]
      batchFiles_nonempty[of "filter reviewable fs" maxChars]
      batchFiles_Nil[of maxChars]
    by auto
qed

theorem batching_is_greedy_witness:
  "filter reviewable [changed_file ''a.ts'' 10000, removed_file ''old.ts'',
      changed_file ''b.ts'' 10000, changed_file ''c.ts'' 10000]
     = [changed_file ''a.ts'' 10000, changed_file ''b.ts'' 10000, changed_file ''c.ts'' 10000]
   \<and> batchFiles (filter reviewable [changed_file ''a.ts'' 10000, removed_file ''old.ts'',
        changed_file ''b.ts'' 10000, changed_file ''c.ts'' 10000]) 25000
     = [[changed_file ''a.ts'' 10000, changed_file ''b.ts'' 10000], [changed_file ''c.ts'' 10000]]
   \<and> [] \<notin> set (batchFiles (filter reviewable [changed_file ''a.ts'' 10000, removed_file ''old.ts'',
        changed_file ''b.ts'' 10000, changed_file ''c.ts'' 10000]) 25000)
   \<and> batchFiles (filter reviewable [removed_file ''old.ts'']) 25000 = [[]]"
  using batching_is_greedy[of "[changed_file ''a.ts'' 10000, removed_file ''old.ts'',
      changed_file ''b.ts'' 10000, changed_file ''c.ts'' 10000]" 25000]
    batching_is_greedy[of "[removed_file ''old.ts'']" 25000]
  by (simp add: reviewable_changed_file reviewable_removed_file patchSize_changed_file)

text \<open>Claim C3 as stated fails where no file is reviewable: the only batch is empty.\<close>

theorem batching_empty_batch_counterexample:
  "[] \<in> set (batchFiles (filter reviewable [removed_file ''old.ts'']) 25000)"
  by (simp add: reviewable_removed_file batchFiles_Nil)

section \<open>Properties of the remote call\<close>

declare callGroqWithRetry_loop.simps [simp del]

lemma callGroq_effect: "snd (callGroq env st) = st\<lparr>calls := calls st + 1\<rparr>"
  by (simp add: callGroq_def)

lemma callGroq_response:
  "replies env (calls st) = Response statusCode data \<Longrightarrow>
   callGroq env st = (on_end env statusCode data, st\<lparr>calls := calls st + 1\<rparr>)"
  by (simp add: callGroq_def)

lemma loop_resolved:
  "attempt \<le> maxRetries \<Longrightarrow> fst (callGroq env st) = Inr v \<Longrightarrow>
   callGroqWithRetry_loop env maxRetries attempt st = callGroq env st"
  by (subst callGroqWithRetry_loop.simps) simp

lemma loop_rejected:
  "attempt \<le> maxRetries \<Longrightarrow> fst (callGroq env st) = Inl err \<Longrightarrow>
   \<not> (str_includes (error_message err) ''429'' \<and> attempt < maxRetries) \<Longrightarrow>
   callGroqWithRetry_loop env maxRetries attempt st = callGroq env st"
  by (subst callGroqWithRetry_loop.simps) auto

lemma loop_retried:
  "attempt < maxRetries \<Longrightarrow> fst (callGroq env st) = Inl err \<Longrightarrow>
   str_includes (error_message err) ''429'' \<Longrightarrow>
   callGroqWithRetry_loop env maxRetries attempt st =
   callGroqWithRetry_loop env maxRetries (attempt + 1)
     (sleep (attempt * 10 * 1000) (st\<lparr>calls := calls st + 1\<rparr>))"
  by (subst callGroqWithRetry_loop.simps) (simp add: callGroq_effect)

lemma loop_calls:
  "attempt \<le> maxRetries \<Longrightarrow>
   calls st < calls (snd (callGroqWithRetry_loop env maxRetries attempt st)) \<and>
   calls (snd (callGroqWithRetry_loop env maxRetries attempt st)) + attempt \<le> calls st + maxRetries + 1"
proof (induction env maxRetries attempt st rule: callGroqWithRetry_loop.induct)
  case (1 ev mx k s)
  show ?case
  proof (cases "fst (callGroq ev s)")
    case (Inr v)
    from loop_resolved[OF "1.prems" Inr] "1.prems" show ?thesis
      by (simp add: callGroq_effect)
  next
    case (Inl err)
    show ?thesis
    proof (cases "str_includes (error_message err) ''429'' \<and> k < mx")
      case False
      from loop_rejected[OF "1.prems" Inl False] "1.prems" show ?thesis
        by (simp add: callGroq_effect)
    next
      case True
      then have lt: "k < mx" and inc: "str_includes (error_message err) ''429''"
        by simp_all
      have le: "k + 1 \<le> mx" using lt by simp
      from "1.IH"[OF "1.prems" Inl True le]
      show ?thesis
        unfolding loop_retried[OF lt Inl inc]
        by (simp add: callGroq_effect sleep_def)
    qed
  qed
qed

lemma callGroqWithRetry_calls:
  "calls st < calls (snd (callGroqWithRetry env 3 st)) \<and>
   calls (snd (callGroqWithRetry env 3 st)) \<le> calls st + 3"
  using loop_calls[of 1 3 st env] by (simp add: callGroqWithRetry_def)

lemma callGroqWithRetry_resolved:
  "callGroq env st = (Inr v, st') \<Longrightarrow> callGroqWithRetry env 3 st = (Inr v, st')"
  using loop_resolved[of 1 3 env st v] by (simp add: callGroqWithRetry_def)

lemma callGroqWithRetry_rejected:
  "callGroq env st = (Inl err, st') \<Longrightarrow> \<not> str_includes (error_message err) ''429'' \<Longrightarrow>
   callGroqWithRetry env 3 st = (Inl err, st')"
  using loop_rejected[of 1 3 env st err] by (simp add: callGroqWithRetry_def)

lemma review_batches_calls:
  "calls (outside s) + length batches \<le> calls (outside (review_batches env batches s)) \<and>
   calls (outside (review_batches env batches s)) \<le> calls (outside s) + 3 * length batches"
proof (induction batches arbitrary: s)
  case Nil
  then show ?case by simp
next
  case (Cons batch rest)
  obtain res st where c: "callGroqWithRetry env 3 (outside s) = (res, st)"
    by (cases "callGroqWithRetry env 3 (outside s)")
  from callGroqWithRetry_calls[of "outside s" env] c
  have b: "calls (outside s) < calls st" "calls st \<le> calls (outside s) + 3" by simp_all
  show ?case
  proof (cases res)
    case (Inr response)
    from Cons.IH[of "s\<lparr>outside := st, allIssues := allIssues s @ parseAIResponse response\<rparr>"] b c Inr
    show ?thesis by simp
  next
    case (Inl err)
    from Cons.IH[of "s\<lparr>outside := st, apiErrorOccurred := True, lastApiError := error_message err\<rparr>"] b c Inl
    show ?thesis by simp
  qed
qed

lemma no_reviewable_calls:
  assumes "filter reviewable fs = []"
  shows "1 \<le> calls (snd (reviewPullRequest env prNum title branch headSha fs cats rules))
       \<and> calls (snd (reviewPullRequest env prNum title branch headSha fs cats rules)) \<le> 3"
  using review_batches_calls[of "\<lparr>outside = \<lparr>calls = 0, sleeps = []\<rparr>, allIssues = [],
      apiErrorOccurred = False, lastApiError = []\<rparr>" "[[]]" env]
  by (simp add: reviewPullRequest_def Let_def assms batchFiles_Nil)

section \<open>Evaluations\<close>

lemma on_end_empty_array: "on_end env 200 empty_array_reply = Inr (JStr ''[]'')"
proof -
  have "JSON_parse empty_array_reply
        = Some (JObj [(''choices'', JArr [JObj [(''message'', JObj [(''content'', JStr ''[]'')])]])])"
    by code_simp
  then show ?thesis
    by (simp add: on_end_def opt_get_def opt_first_def get_def truthy_def)
qed

lemma on_end_server_error:
  "on_end env 500 server_error_body = Inl (Error ''Groq API 500: Internal server error'')"
proof -
  have "JSON_parse server_error_body
        = Some (JObj [(''error'', JObj [(''message'', JStr ''Internal server error'')])])"
    by code_simp
  moreover have "show_nat 500 = ''500''" by code_simp
  ultimately show ?thesis
    by (simp add: on_end_def opt_get_def get_def truthy_def)
qed

lemma server_error_not_429: "\<not> str_includes ''Groq API 500: Internal server error'' ''429''"
  by code_simp

lemma parse_empty_array: "parseAIResponse (JStr ''[]'') = []"
  by code_simp

lemma first_ok_then_500_review:
  "fst (reviewPullRequest first_ok_then_500 1 ''Add feature'' ''feature'' ''abc123''
      [changed_file ''a.ts'' 20000, changed_file ''b.ts'' 20000] [] [])
   = \<lparr>prNumber = 1, prTitle = ''Add feature'', branchName = ''feature'',
      summary = \<lparr>totalFiles = 2, totalIssues = 1, errors = 1, warnings = 0, info = 0, suggestions = 0\<rparr>,
      issues = [api_error_issue ''a.ts'' ''Groq API 500: Internal server error''],
      files = [\<lparr>FileReviewResult.filename = ''a.ts'', status = Modified, additions = 20000, deletions = 0,
                 issues = [api_error_issue ''a.ts'' ''Groq API 500: Internal server error'']\<rparr>,
               \<lparr>FileReviewResult.filename = ''b.ts'', status = Modified, additions = 20000, deletions = 0,
                 issues = []\<rparr>],
      status = Fail\<rparr>"
proof -
  let ?a = "changed_file ''a.ts'' 20000" and ?b = "changed_file ''b.ts'' 20000"
  have f: "filter reviewable [?a, ?b] = [?a, ?b]"
    by (simp add: reviewable_changed_file)
  have b: "batchFiles [?a, ?b] 25000 = [[?a], [?b]]"
    by (simp add: batchFiles_def patchSize_changed_file)
  have c0: "callGroqWithRetry first_ok_then_500 3 \<lparr>calls = 0, sleeps = []\<rparr>
            = (Inr (JStr ''[]''), \<lparr>calls = Suc 0, sleeps = []\<rparr>)"
    by (rule callGroqWithRetry_resolved)
      (simp add: callGroq_def first_ok_then_500_def on_end_empty_array)
  have c1: "callGroqWithRetry first_ok_then_500 3 \<lparr>calls = Suc 0, sleeps = []\<rparr>
            = (Inl (Error ''Groq API 500: Internal server error''), \<lparr>calls = 2, sleeps = []\<rparr>)"
    by (rule callGroqWithRetry_rejected)
      (simp_all add: callGroq_def first_ok_then_500_def on_end_server_error server_error_not_429)
  have s: "review_batches first_ok_then_500 [[?a], [?b]]
             \<lparr>outside = \<lparr>calls = 0, sleeps = []\<rparr>, allIssues = [],
              apiErrorOccurred = False, lastApiError = []\<rparr>
           = \<lparr>outside = \<lparr>calls = 2, sleeps = []\<rparr>, allIssues = [],
              apiErrorOccurred = True, lastApiError = ''Groq API 500: Internal server error''\<rparr>"
    by (simp add: c0 c1 parse_empty_array)
  show ?thesis
    unfolding reviewPullRequest_def Let_def f b s
    by (simp add: with_api_error_def buildSummary_def review_status_of_def file_result_def
        api_error_issue_def changed_file_def)
qed

lemma on_end_issue_without_file:
  \<open>on_end env 200 issue_without_file_reply = Inr (JStr ''[{"message":"m"}]'')\<close>
proof -
  have \<open>JSON_parse issue_without_file_reply
        = Some (JObj [(''choices'', JArr [JObj [(''message'', JObj [(''content'', JStr ''[{"message":"m"}]'')])]])])\<close>
    by code_simp
  then show ?thesis
    by (simp add: on_end_def opt_get_def opt_first_def get_def truthy_def)
qed

lemma parse_issue_without_file:
  \<open>parseAIResponse (JStr ''[{"message":"m"}]'') = [unattributed_issue]\<close>
  by code_simp

lemma one_issue_without_file_review:
  "fst (reviewPullRequest one_issue_without_file 1 ''Add feature'' ''feature'' ''abc123''
      [changed_file ''a.ts'' 10, removed_file ''old.ts''] [] [])
   = \<lparr>prNumber = 1, prTitle = ''Add feature'', branchName = ''feature'',
      summary = \<lparr>totalFiles = 2, totalIssues = 1, errors = 0, warnings = 0, info = 1, suggestions = 0\<rparr>,
      issues = [unattributed_issue],
      files = [\<lparr>FileReviewResult.filename = ''a.ts'', status = Modified, additions = 10, deletions = 0,
                 issues = []\<rparr>,
               \<lparr>FileReviewResult.filename = ''old.ts'', status = Removed, additions = 0, deletions = 3,
                 issues = []\<rparr>],
      status = Pass\<rparr>"
proof -
  let ?a = "changed_file ''a.ts'' 10" and ?b = "removed_file ''old.ts''"
  have f: "filter reviewable [?a, ?b] = [?a]"
    by (simp add: reviewable_changed_file reviewable_removed_file)
  have b: "batchFiles [?a] 25000 = [[?a]]"
    by (simp add: batchFiles_def patchSize_changed_file)
  have c0: \<open>callGroqWithRetry one_issue_without_file 3 \<lparr>calls = 0, sleeps = []\<rparr>
            = (Inr (JStr ''[{"message":"m"}]''), \<lparr>calls = Suc 0, sleeps = []\<rparr>)\<close>
    by (rule callGroqWithRetry_resolved)
      (simp add: callGroq_def one_issue_without_file_def on_end_issue_without_file)
  have s: "review_batches one_issue_without_file [[?a]]
             \<lparr>outside = \<lparr>calls = 0, sleeps = []\<rparr>, allIssues = [],
              apiErrorOccurred = False, lastApiError = []\<rparr>
           = \<lparr>outside = \<lparr>calls = Suc 0, sleeps = []\<rparr>, allIssues = [unattributed_issue],
              apiErrorOccurred = False, lastApiError = []\<rparr>"
    by (simp add: c0 parse_issue_without_file)
  show ?thesis
    unfolding reviewPullRequest_def Let_def f b s
    by (simp add: with_api_error_def buildSummary_def review_status_of_def file_result_def
        unattributed_issue_def changed_file_def removed_file_def)
qed

lemma on_end_mentions_429:
  "on_end env 500 mentions_429_body = Inl (Error ''Groq API 500: upstream returned 429'')"
proof -
  have "JSON_parse mentions_429_body
        = Some (JObj [(''error'', JObj [(''message'', JStr ''upstream returned 429'')])])"
    by code_simp
  moreover have "show_nat 500 = ''500''" by code_simp
  ultimately show ?thesis
    by (simp add: on_end_def opt_get_def get_def truthy_def)
qed

lemma mentions_429: "str_includes ''Groq API 500: upstream returned 429'' ''429''"
  by code_simp

lemma per_file_partition:
  assumes "distinct (map PRFile.filename fs)"
  shows "mset (concat (map (\<lambda>f. filter (\<lambda>i. issue_file i = JStr (PRFile.filename f)) found) fs))
         = filter_mset (\<lambda>i. \<exists>f\<in>set fs. issue_file i = JStr (PRFile.filename f)) (mset found)"
  using assms
proof (induction fs)
  case Nil
  then show ?case by simp
next
  case (Cons g fs)
  then have d: "PRFile.filename g \<notin> PRFile.filename ` set fs" and ih:
    "mset (concat (map (\<lambda>f. filter (\<lambda>i. issue_file i = JStr (PRFile.filename f)) found) fs))
     = filter_mset (\<lambda>i. \<exists>f\<in>set fs. issue_file i = JStr (PRFile.filename f)) (mset found)"
    by simp_all
  show ?case
    unfolding list.map concat.simps mset_append ih
    by (rule multiset_eqI) (use d in \<open>auto simp: image_iff\<close>)
qed

section \<open>Properties of the review\<close>

text \<open>
  Claim C1. In the result of \<^verbatim>\<open>reviewPullRequest\<close> the status is \<open>Fail\<close> exactly when
  \<open>summary.errors > 0\<close>; otherwise it is \<open>Warn\<close> exactly when \<open>summary.warnings > 0\<close>;
  otherwise it is \<open>Pass\<close>. The two counts are those of the issues of the result with
  severity error and warning.
\<close>

theorem status_follows_summary:
  fixes env prNum title branch headSha fs cats rules
  defines "r \<equiv> fst (reviewPullRequest env prNum title branch headSha fs cats rules)"
  shows "(ReviewResult.status r = Fail) = (errors (summary r) > 0)
       \<and> (ReviewResult.status r = Warn) = (errors (summary r) = 0 \<and> warnings (summary r) > 0)
       \<and> (ReviewResult.status r = Pass) = (errors (summary r) = 0 \<and> warnings (summary r) = 0)
       \<and> errors (summary r) = length (filter (\<lambda>i. severity i = SevError) (ReviewResult.issues r))
       \<and> warnings (summary r) = length (filter (\<lambda>i. severity i = SevWarning) (ReviewResult.issues r))"
  unfolding r_def
  by (simp add: reviewPullRequest_def Let_def review_status_of_def buildSummary_def)

text \<open>
  Claim C10. \<open>summary.totalFiles\<close> is the number of files of the input change-set: the
  reviewable ones and the ones left out of the review (removed, or without diff text)
  alike.
\<close>

theorem totalFiles_counts_every_input_file:
  fixes env prNum title branch headSha fs cats rules
  defines "r \<equiv> fst (reviewPullRequest env prNum title branch headSha fs cats rules)"
  shows "totalFiles (summary r) = length fs
       \<and> totalFiles (summary r)
           = length (filter reviewable fs) + length (filter (\<lambda>f. \<not> reviewable f) fs)"
  unfolding r_def
  by (simp add: reviewPullRequest_def Let_def buildSummary_def sum_length_filter_compl)

text \<open>
  Claim C2, as the code has it. The per-file list has one entry per input file, in input
  order and whatever the status of the file: a file whose status is \<open>Removed\<close> has its
  entry too. The issues of an entry are exactly the issues of the result whose file field
  is the name of that file, in their order (none when there is no such issue). So when
  the input names are distinct, the entries hold, each once, the issues whose file field
  names an input file.
\<close>

theorem per_file_entries:
  fixes env prNum title branch headSha fs cats rules
  defines "r \<equiv> fst (reviewPullRequest env prNum title branch headSha fs cats rules)"
  shows "map FileReviewResult.filename (files r) = map PRFile.filename fs
       \<and> map FileReviewResult.status (files r) = map PRFile.status fs
       \<and> (\<forall>k < length fs.
             FileReviewResult.issues (files r ! k)
             = filter (\<lambda>i. issue_file i = JStr (PRFile.filename (fs ! k))) (ReviewResult.issues r))
       \<and> (distinct (map PRFile.filename fs) \<longrightarrow>
             mset (concat (map FileReviewResult.issues (files r)))
             = filter_mset (\<lambda>i. \<exists>f\<in>set fs. issue_file i = JStr (PRFile.filename f))
                 (mset (ReviewResult.issues r)))"
proof -
  obtain found where fl: "files r = map (file_result found) fs" and iss: "ReviewResult.issues r = found"
    unfolding r_def by (simp add: reviewPullRequest_def Let_def)
  have m: "map FileReviewResult.issues (map (file_result found) fs)
           = map (\<lambda>f. filter (\<lambda>i. issue_file i = JStr (PRFile.filename f)) found) fs"
    by (simp add: file_result_def)
  show ?thesis
    unfolding fl iss m
    using per_file_partition[of fs found]
    by (simp add: file_result_def comp_def)
qed

theorem per_file_entries_witness:
  "distinct (map PRFile.filename [changed_file ''a.ts'' 10, removed_file ''old.ts''])
   \<and> map FileReviewResult.filename
         (files (fst (reviewPullRequest one_issue_without_file 1 ''Add feature'' ''feature'' ''abc123''
            [changed_file ''a.ts'' 10, removed_file ''old.ts''] [] [])))
       = [''a.ts'', ''old.ts'']
   \<and> map FileReviewResult.status
         (files (fst (reviewPullRequest one_issue_without_file 1 ''Add feature'' ''feature'' ''abc123''
            [changed_file ''a.ts'' 10, removed_file ''old.ts''] [] [])))
       = [Modified, Removed]
   \<and> mset (concat (map FileReviewResult.issues
         (files (fst (reviewPullRequest one_issue_without_file 1 ''Add feature'' ''feature'' ''abc123''
            [changed_file ''a.ts'' 10, removed_file ''old.ts''] [] [])))))
       = {#}"
proof -
  have d: "distinct (map PRFile.filename [changed_file ''a.ts'' 10, removed_file ''old.ts''])"
    by (simp add: changed_file_def removed_file_def)
  note entries = per_file_entries[of one_issue_without_file 1 "''Add feature''" "''feature''" "''abc123''"
      "[changed_file ''a.ts'' 10, removed_file ''old.ts'']" "[]" "[]"]
  note names = entries[THEN conjunct1]
  note statuses = entries[THEN conjunct2, THEN conjunct1]
  note parts = entries[THEN conjunct2, THEN conjunct2, THEN conjunct2, THEN mp, OF d]
  have "filter_mset (\<lambda>i. \<exists>f\<in>set [changed_file ''a.ts'' 10, removed_file ''old.ts''].
                      issue_file i = JStr (PRFile.filename f))
          (mset [unattributed_issue])
        = {#}"
    by (simp add: changed_file_def removed_file_def unattributed_issue_def)
  with parts have "mset (concat (map FileReviewResult.issues
         (files (fst (reviewPullRequest one_issue_without_file 1 ''Add feature'' ''feature'' ''abc123''
            [changed_file ''a.ts'' 10, removed_file ''old.ts''] [] [])))))
       = {#}"
    unfolding one_issue_without_file_review by simp
  moreover from names have "map FileReviewResult.filename
         (files (fst (reviewPullRequest one_issue_without_file 1 ''Add feature'' ''feature'' ''abc123''
            [changed_file ''a.ts'' 10, removed_file ''old.ts''] [] [])))
       = [''a.ts'', ''old.ts'']"
    by (simp add: changed_file_def removed_file_def)
  moreover from statuses have "map FileReviewResult.status
         (files (fst (reviewPullRequest one_issue_without_file 1 ''Add feature'' ''feature'' ''abc123''
            [changed_file ''a.ts'' 10, removed_file ''old.ts''] [] [])))
       = [Modified, Removed]"
    by (simp add: changed_file_def removed_file_def)
  ultimately show ?thesis using d by simp
qed

text \<open>
  Claim C2 as stated fails on both counts at one input: a modified file and a removed
  file, and a reply with one issue that names no file. The removed file has its entry in
  the per-file list, and the issue (attributed to the file name \<^verbatim>\<open>unknown\<close>) is in the
  issues of the result but in no entry.
\<close>

theorem per_file_entries_counterexample:
  "PRFile.status (removed_file ''old.ts'') = Removed
   \<and> map FileReviewResult.filename
         (files (fst (reviewPullRequest one_issue_without_file 1 ''Add feature'' ''feature'' ''abc123''
            [changed_file ''a.ts'' 10, removed_file ''old.ts''] [] [])))
       = [''a.ts'', ''old.ts'']
   \<and> ReviewResult.issues
         (fst (reviewPullRequest one_issue_without_file 1 ''Add feature'' ''feature'' ''abc123''
            [changed_file ''a.ts'' 10, removed_file ''old.ts''] [] []))
       = [unattributed_issue]
   \<and> concat (map FileReviewResult.issues
         (files (fst (reviewPullRequest one_issue_without_file 1 ''Add feature'' ''feature'' ''abc123''
            [changed_file ''a.ts'' 10, removed_file ''old.ts''] [] []))))
       = []"
  unfolding one_issue_without_file_review
  by (simp add: removed_file_def)

text \<open>
  Claim C4, as the code has it. When no file of the change-set is reviewable, batching
  gives exactly one empty batch, and the loop over the batches makes the remote call for
  it as for any other batch: the invocation performs at least one remote call and at most
  three.
\<close>

theorem no_reviewable_files_still_called:
  "filter reviewable fs = [] \<Longrightarrow>
   batchFiles (filter reviewable fs) 25000 = [[]]
   \<and> 1 \<le> calls (snd (reviewPullRequest env prNum title branch headSha fs cats rules))
   \<and> calls (snd (reviewPullRequest env prNum title branch headSha fs cats rules)) \<le> 3"
  using no_reviewable_calls[of fs env prNum title branch headSha cats rules]
  by (simp add: batchFiles_Nil)

theorem no_reviewable_files_still_called_witness:
  "filter reviewable [removed_file ''old.ts'', removed_file ''older.ts''] = []
   \<and> batchFiles (filter reviewable [removed_file ''old.ts'', removed_file ''older.ts'']) 25000 = [[]]
   \<and> 1 \<le> calls (snd (reviewPullRequest first_ok_then_500 1 ''Add feature'' ''feature'' ''abc123''
              [removed_file ''old.ts'', removed_file ''older.ts''] [] []))
   \<and> calls (snd (reviewPullRequest first_ok_then_500 1 ''Add feature'' ''feature'' ''abc123''
          [removed_file ''old.ts'', removed_file ''older.ts''] [] [])) \<le> 3"
proof -
  have h: "filter reviewable [removed_file ''old.ts'', removed_file ''older.ts''] = []"
    by (simp add: reviewable_removed_file)
  from no_reviewable_files_still_called[OF h] h show ?thesis by simp
qed

text \<open>
  Claim C4 as stated fails: with a change-set that holds one removed file, and a service
  that answers every call with an empty array, the invocation performs one remote call.
\<close>

theorem no_reviewable_files_counterexample:
  "filter reviewable [removed_file ''old.ts''] = []
   \<and> calls (snd (reviewPullRequest always_empty_array 1 ''Add feature'' ''feature'' ''abc123''
        [removed_file ''old.ts''] [] [])) = 1"
proof -
  have f: "filter reviewable [removed_file ''old.ts''] = []"
    by (simp add: reviewable_removed_file)
  have c0: "callGroqWithRetry always_empty_array 3 \<lparr>calls = 0, sleeps = []\<rparr>
            = (Inr (JStr ''[]''), \<lparr>calls = Suc 0, sleeps = []\<rparr>)"
    by (rule callGroqWithRetry_resolved)
      (simp add: callGroq_def always_empty_array_def on_end_empty_array)
  show ?thesis
    unfolding reviewPullRequest_def Let_def f batchFiles_Nil
    by (simp add: c0 parse_empty_array)
qed

section \<open>The synthetic issue after a partial failure\<close>

text \<open>
  Claim C5, at an input where the code departs from it. Two files with diffs of 20,000
  characters go into two batches. The call for the first batch succeeds and its reply holds
  no issue; the call for the second batch fails with status 500. The result holds the
  synthetic issue, attached to the first file, although the call of one batch
  succeeded: the condition of the code is that some call failed and no issue was found.
\<close>

theorem synthetic_issue_after_partial_failure:
  "batchFiles (filter reviewable [changed_file ''a.ts'' 20000, changed_file ''b.ts'' 20000]) 25000
     = [[changed_file ''a.ts'' 20000], [changed_file ''b.ts'' 20000]]
   \<and> fst (callGroqWithRetry first_ok_then_500 3 \<lparr>calls = 0, sleeps = []\<rparr>) = Inr (JStr ''[]'')
   \<and> ReviewResult.issues
         (fst (reviewPullRequest first_ok_then_500 1 ''Add feature'' ''feature'' ''abc123''
            [changed_file ''a.ts'' 20000, changed_file ''b.ts'' 20000] [] []))
       = [api_error_issue ''a.ts'' ''Groq API 500: Internal server error'']"
proof -
  have "callGroq first_ok_then_500 \<lparr>calls = 0, sleeps = []\<rparr>
        = (Inr (JStr ''[]''), \<lparr>calls = Suc 0, sleeps = []\<rparr>)"
    by (simp add: callGroq_def first_ok_then_500_def on_end_empty_array)
  from callGroqWithRetry_resolved[OF this] show ?thesis
    by (simp add: first_ok_then_500_review reviewable_changed_file batchFiles_def
        patchSize_changed_file)
qed

section \<open>The retry on a failure that only mentions 429\<close>

text \<open>
  Claim C6, at an input where the code departs from it. The service answers every call
  with status 500 and an error message that mentions 429. \<^verbatim>\<open>callGroqWithRetry\<close> takes the
  failure for a rate limit, because it looks for the text 429 anywhere in the message of
  the error: it waits 10 and 20 seconds and calls three times before it gives the failure
  up.
\<close>

theorem status_500_is_retried:
  "callGroqWithRetry always_500_mentioning_429 3 \<lparr>calls = 0, sleeps = []\<rparr>
   = (Inl (Error ''Groq API 500: upstream returned 429''), \<lparr>calls = 3, sleeps = [10000, 20000]\<rparr>)"
proof -
  let ?env = always_500_mentioning_429
  let ?err = "Error ''Groq API 500: upstream returned 429''"
  have cg: "callGroq ?env st = (Inl ?err, st\<lparr>calls := calls st + 1\<rparr>)" for st
    by (simp add: callGroq_def always_500_mentioning_429_def on_end_mentions_429)
  have inc: "str_includes (error_message ?err) ''429''"
    by (simp add: mentions_429)
  have "callGroqWithRetry ?env 3 \<lparr>calls = 0, sleeps = []\<rparr>
        = callGroqWithRetry_loop ?env 3 2 \<lparr>calls = 1, sleeps = [10000]\<rparr>"
    unfolding callGroqWithRetry_def
    by (subst loop_retried[where err = ?err]) (simp_all add: cg inc sleep_def numeral_2_eq_2 numeral_3_eq_3)
  also have "\<dots> = callGroqWithRetry_loop ?env 3 3 \<lparr>calls = 2, sleeps = [10000, 20000]\<rparr>"
    by (subst loop_retried[where err = ?err]) (simp_all add: cg inc sleep_def numeral_2_eq_2 numeral_3_eq_3)
  also have "\<dots> = callGroq ?env \<lparr>calls = 2, sleeps = [10000, 20000]\<rparr>"
    by (rule loop_rejected[where err = ?err]) (simp_all add: cg)
  also have "\<dots> = (Inl ?err, \<lparr>calls = 3, sleeps = [10000, 20000]\<rparr>)"
    by (simp add: cg numeral_2_eq_2 numeral_3_eq_3)
  finally show ?thesis .
qed

section \<open>Properties of the parser\<close>

lemma jsonMatch_Some_iff:
  "jsonMatch c = Some m \<longleftrightarrow>
   (\<exists>pre mid post. c = pre @ m @ post \<and> m = CHR ''['' # mid @ [CHR '']''] \<and>
      CHR ''['' \<notin> set pre \<and> CHR '']'' \<notin> set post)"
proof
  assume "jsonMatch c = Some m"
  then obtain b after e before where
    d1: "dropWhile (\<lambda>x. x \<noteq> CHR ''['') c = b # after" and
    d2: "dropWhile (\<lambda>x. x \<noteq> CHR '']'') (rev after) = e # before" and
    m: "m = b # rev (e # before)"
    by (auto simp: jsonMatch_def split: list.splits)
  let ?pre = "takeWhile (\<lambda>x. x \<noteq> CHR ''['') c"
  let ?postr = "takeWhile (\<lambda>x. x \<noteq> CHR '']'') (rev after)"
  have b: "b = CHR ''[''"
    using hd_dropWhile[of "\<lambda>x. x \<noteq> CHR ''[''" c] d1 by simp
  have e: "e = CHR '']''"
    using hd_dropWhile[of "\<lambda>x. x \<noteq> CHR '']''" "rev after"] d2 by simp
  have c: "c = ?pre @ b # after"
    using takeWhile_dropWhile_id[of "\<lambda>x. x \<noteq> CHR ''[''" c] d1 by simp
  have "rev after = ?postr @ e # before"
    using takeWhile_dropWhile_id[of "\<lambda>x. x \<noteq> CHR '']''" "rev after"] d2 by simp
  then have "rev (rev after) = rev (?postr @ e # before)" by simp
  then have a: "after = rev before @ e # rev ?postr" by simp
  have p1: "CHR ''['' \<notin> set ?pre"
    using set_takeWhileD[of "CHR ''[''" "\<lambda>x. x \<noteq> CHR ''[''" c] by blast
  have p2: "CHR '']'' \<notin> set (rev ?postr)"
    using set_takeWhileD[of "CHR '']''" "\<lambda>x. x \<noteq> CHR '']''" "rev after"] by auto
  have "c = ?pre @ m @ rev ?postr" "m = CHR ''['' # rev before @ [CHR '']'']"
    using c a m b e by simp_all
  with p1 p2 show "\<exists>pre mid post. c = pre @ m @ post \<and> m = CHR ''['' # mid @ [CHR '']''] \<and>
      CHR ''['' \<notin> set pre \<and> CHR '']'' \<notin> set post"
    by blast
next
  assume "\<exists>pre mid post. c = pre @ m @ post \<and> m = CHR ''['' # mid @ [CHR '']''] \<and>
      CHR ''['' \<notin> set pre \<and> CHR '']'' \<notin> set post"
  then obtain pre mid post where c: "c = pre @ m @ post" and m: "m = CHR ''['' # mid @ [CHR '']'']"
    and p1: "CHR ''['' \<notin> set pre" and p2: "CHR '']'' \<notin> set post"
    by blast
  have "dropWhile (\<lambda>x. x \<noteq> CHR ''['') (pre @ CHR ''['' # mid @ CHR '']'' # post)
        = dropWhile (\<lambda>x. x \<noteq> CHR ''['') (CHR ''['' # mid @ CHR '']'' # post)"
    using p1 by (intro dropWhile_append2) auto
  then have 1: "dropWhile (\<lambda>x. x \<noteq> CHR ''['') c = CHR ''['' # mid @ CHR '']'' # post"
    using c m by simp
  have "dropWhile (\<lambda>x. x \<noteq> CHR '']'') (rev post @ CHR '']'' # rev mid)
        = dropWhile (\<lambda>x. x \<noteq> CHR '']'') (CHR '']'' # rev mid)"
    using p2 by (intro dropWhile_append2) auto
  then have 2: "dropWhile (\<lambda>x. x \<noteq> CHR '']'') (rev post @ CHR '']'' # rev mid) = CHR '']'' # rev mid"
    by simp
  show "jsonMatch c = Some m"
    by (simp add: jsonMatch_def 1 2 m)
qed

lemma trim_unchanged:
  assumes "s \<noteq> []" "\<not> white_space (hd s)" "\<not> white_space (last s)"
  shows "trim s = s"
proof -
  have 1: "dropWhile white_space s = s"
    using assms(1,2) by (cases s) simp_all
  have "rev s \<noteq> []" "\<not> white_space (hd (rev s))"
    using assms(1,3) by (simp_all add: hd_rev)
  then have 2: "dropWhile white_space (rev s) = rev s"
    by (cases "rev s") simp_all
  show ?thesis by (simp add: trim_def 1 2)
qed

lemma cleaned_fenced:
  "cleaned (''```json'' @ CHR 0x0A # inner @ CHR 0x0A # ''```'') = inner"
proof -
  let ?s = "''```json'' @ CHR 0x0A # inner @ CHR 0x0A # ''```''"
  have t: "trim ?s = ?s"
    by (rule trim_unchanged) (simp_all add: white_space_def)
  have o: "strip_open_fence ?s = inner @ CHR 0x0A # ''```''"
    by (simp add: strip_open_fence_def startsWith_def)
  have c: "strip_close_fence (inner @ CHR 0x0A # ''```'') = inner"
    by (simp add: strip_close_fence_def endsWith_def)
  show ?thesis
    by (simp only: cleaned_def t o c) (simp add: startsWith_def)
qed

lemma parse_no_match: "jsonMatch (cleaned text) = None \<Longrightarrow> parseAIResponse (JStr text) = []"
  by (simp add: parseAIResponse_def)

lemma parse_not_array:
  "jsonMatch (cleaned text) = Some m \<Longrightarrow> (\<forall>items. JSON_parse m \<noteq> Some (JArr items)) \<Longrightarrow>
   parseAIResponse (JStr text) = []"
  by (auto simp: parseAIResponse_def split: option.splits json.splits)

lemma fenced_payload_facts:
  "cleaned fenced_payload = fenced_payload"
  "jsonMatch fenced_payload = Some ''[]''"
  "parseAIResponse (JStr fenced_payload) = []"
  by code_simp+

lemma array_then_reference_facts:
  \<open>spec_first_complete_array (cleaned array_then_reference) = Some ''[{"message":"m"}]''\<close>
  \<open>jsonMatch (cleaned array_then_reference) = Some ''[{"message":"m"}] See [1]''\<close>
  \<open>JSON_parse ''[{"message":"m"}] See [1]'' = None\<close>
  \<open>parseAIResponse (JStr array_then_reference) = []\<close>
  by code_simp+

lemma no_bracket_facts:
  "jsonMatch (cleaned ''No issues found.'') = None"
  "parseAIResponse (JStr ''No issues found.'') = []"
  by code_simp+


lemma on_end_fenced: "on_end env 200 fenced_reply = Inr (JStr fenced_payload)"
proof -
  have "JSON_parse fenced_reply
        = Some (JObj [(''choices'', JArr [JObj [(''message'', JObj [(''content'', JStr fenced_payload)])]])])"
    by code_simp
  moreover have "fenced_payload \<noteq> []" by (simp add: fenced_payload_def)
  ultimately show ?thesis
    by (simp add: on_end_def opt_get_def opt_first_def get_def truthy_def)
qed

lemma fenced_empty_array_review:
  "ReviewResult.issues
     (fst (reviewPullRequest fenced_empty_array 1 ''Add feature'' ''feature'' ''abc123''
        [changed_file ''a.ts'' 10] [] [])) = []"
proof -
  let ?a = "changed_file ''a.ts'' 10"
  have f: "filter reviewable [?a] = [?a]"
    by (simp add: reviewable_changed_file)
  have b: "batchFiles [?a] 25000 = [[?a]]"
    by (simp add: batchFiles_def patchSize_changed_file)
  have c0: "callGroqWithRetry fenced_empty_array 3 \<lparr>calls = 0, sleeps = []\<rparr>
            = (Inr (JStr fenced_payload), \<lparr>calls = Suc 0, sleeps = []\<rparr>)"
    by (rule callGroqWithRetry_resolved)
      (simp add: callGroq_def fenced_empty_array_def on_end_fenced)
  have s: "review_batches fenced_empty_array [[?a]]
             \<lparr>outside = \<lparr>calls = 0, sleeps = []\<rparr>, allIssues = [],
              apiErrorOccurred = False, lastApiError = []\<rparr>
           = \<lparr>outside = \<lparr>calls = Suc 0, sleeps = []\<rparr>, allIssues = [],
              apiErrorOccurred = False, lastApiError = []\<rparr>"
    by (simp add: c0 fenced_payload_facts(3))
  show ?thesis
    unfolding reviewPullRequest_def Let_def f b s
    by (simp add: with_api_error_def)
qed

text \<open>
  Claim C7, as the code has it. For every response text, the parser trims it, strips a
  code fence at its start and at its end when the trimmed text starts with one (a text
  fenced as \<^verbatim>\<open>```json\<close>, line feed, \<open>inner\<close>, line feed, \<^verbatim>\<open>```\<close> is cleaned to \<open>inner\<close>), and
  takes the text from the first opening bracket to the last closing bracket after it. It
  yields zero issues, and no error, when there is no such span and when the span does not
  parse as a JSON array. The payload of a greeting followed by a fenced empty array yields
  zero issues, and a review whose only call is answered with it has no issue at all, so no
  synthetic one.
\<close>

theorem parse_takes_bracket_span:
  "(jsonMatch (cleaned response) = None \<longrightarrow> parseAIResponse (JStr response) = [])
   \<and> (\<forall>m. jsonMatch (cleaned response) = Some m \<and> (\<forall>items. JSON_parse m \<noteq> Some (JArr items))
          \<longrightarrow> parseAIResponse (JStr response) = [])
   \<and> (\<forall>m. (jsonMatch (cleaned response) = Some m)
          = (\<exists>pre mid post. cleaned response = pre @ m @ post \<and> m = CHR ''['' # mid @ [CHR '']''] \<and>
               CHR ''['' \<notin> set pre \<and> CHR '']'' \<notin> set post))
   \<and> (\<not> startsWith (trim response) ''```'' \<longrightarrow> cleaned response = trim response)
   \<and> (\<forall>inner. cleaned (''```json'' @ CHR 0x0A # inner @ CHR 0x0A # ''```'') = inner)
   \<and> parseAIResponse (JStr fenced_payload) = []
   \<and> ReviewResult.issues
         (fst (reviewPullRequest fenced_empty_array 1 ''Add feature'' ''feature'' ''abc123''
            [changed_file ''a.ts'' 10] [] [])) = []"
proof -
  have "\<And>m. jsonMatch (cleaned response) = Some m \<Longrightarrow> (\<forall>items. JSON_parse m \<noteq> Some (JArr items))
          \<Longrightarrow> parseAIResponse (JStr response) = []"
    by (rule parse_not_array)
  moreover have "\<not> startsWith (trim response) ''```'' \<Longrightarrow> cleaned response = trim response"
    by (simp add: cleaned_def)
  ultimately show ?thesis
    using parse_no_match[of response] jsonMatch_Some_iff[of "cleaned response"] cleaned_fenced
      fenced_payload_facts(3) fenced_empty_array_review
    by (intro conjI allI impI) blast+
qed

theorem parse_takes_bracket_span_witness:
  \<open>jsonMatch (cleaned ''No issues found.'') = None
   \<and> parseAIResponse (JStr ''No issues found.'') = []
   \<and> jsonMatch (cleaned array_then_reference) = Some ''[{"message":"m"}] See [1]''
   \<and> (\<forall>items. JSON_parse ''[{"message":"m"}] See [1]'' \<noteq> Some (JArr items))
   \<and> parseAIResponse (JStr array_then_reference) = []\<close>
proof -
  have n: "jsonMatch (cleaned ''No issues found.'') = None"
    by (rule no_bracket_facts(1))
  note a = array_then_reference_facts(2,3)
  from parse_takes_bracket_span[of "''No issues found.''", THEN conjunct1, THEN mp, OF n]
    parse_takes_bracket_span[of array_then_reference, THEN conjunct2, THEN conjunct1, THEN spec,
      THEN mp, OF conjI, OF a(1)] n a
  show ?thesis by simp
qed

text \<open>
  Claim C7 as stated fails where a closing bracket follows the array: the first
  syntactically complete JSON array substring of the text holds one issue, but the parser
  takes the span up to the last closing bracket, which does not parse, and yields zero
  issues.
\<close>

theorem parse_first_array_counterexample:
  \<open>spec_first_complete_array (cleaned array_then_reference) = Some ''[{"message":"m"}]''
   \<and> parseAIResponse (JStr ''[{"message":"m"}]'') = [unattributed_issue]
   \<and> jsonMatch (cleaned array_then_reference) = Some ''[{"message":"m"}] See [1]''
   \<and> parseAIResponse (JStr array_then_reference) = []\<close>
  using array_then_reference_facts parse_issue_without_file by simp

section \<open>Properties of the webhook gateway\<close>

lemma dispatch_payload:
  assumes "x_github_event req = Some ''pull_request''"
    and "JSON_parse (body req) = Some payload"
    and "payload \<noteq> JNull"
  shows "dispatch req =
     (if \<exists>a. get payload ''action'' = Some (JStr a) \<and>
              a \<in> {''opened'', ''synchronize'', ''reopened'', ''ready_for_review''}
      then Inr ((200, ReviewTriggered (get payload ''number'') (the (get payload ''action''))), [payload])
      else action_ignored (get payload ''action''))"
  using assms
  by (auto simp: dispatch_def relevantActions_def split: option.splits json.splits)

lemma handleRequest_dispatch:
  assumes "http_method req = ''POST''"
    and "url req = ''/webhook'' \<or> url req = ''/''"
    and "secret = [] \<or> verifySignature hmac secret (body req) (x_hub_signature_256 req) = Inr True"
  shows "handleRequest hmac secret req = dispatch req"
  using assms by (auto simp: handleRequest_def)

text \<open>
  Claim C8, as the code has it. A POST request on the webhook path (or the root path) with
  the pull-request event type, which passes the signature check when a secret is
  configured, whose body parses as JSON (not \<^verbatim>\<open>null\<close>) and whose action, if there is one,
  has a string form (as every string has): the gateway fires the event and answers 200
  with the number and the action exactly when the action of the payload is one of
  \<^verbatim>\<open>opened\<close>, \<^verbatim>\<open>synchronize\<close>, \<^verbatim>\<open>reopened\<close>, \<^verbatim>\<open>ready_for_review\<close>; for any other action it
  answers 200 with the "ignored" acknowledgment and fires no event.
\<close>

theorem relevant_actions_are_dispatched:
  assumes "http_method req = ''POST''"
    and "url req = ''/webhook'' \<or> url req = ''/''"
    and "secret = [] \<or> verifySignature hmac secret (body req) (x_hub_signature_256 req) = Inr True"
    and "x_github_event req = Some ''pull_request''"
    and "JSON_parse (body req) = Some payload"
    and "payload \<noteq> JNull"
    and "has_string_form (get payload ''action'')"
  shows "handleRequest hmac secret req =
     (if \<exists>a. get payload ''action'' = Some (JStr a) \<and>
              a \<in> {''opened'', ''synchronize'', ''reopened'', ''ready_for_review''}
      then Inr ((200, ReviewTriggered (get payload ''number'') (the (get payload ''action''))), [payload])
      else Inr ((200, ActionIgnored (get payload ''action'')), []))"
proof -
  have "action_ignored (get payload ''action'') = Inr ((200, ActionIgnored (get payload ''action'')), [])"
    using assms(7) by (simp add: action_ignored_def)
  then show ?thesis
    unfolding handleRequest_dispatch[OF assms(1,2,3)] dispatch_payload[OF assms(4,5,6)]
    by simp
qed

lemma parse_closed_event:
  \<open>JSON_parse ''{"action":"closed","number":7}'' = Some (JObj [(''action'', JStr ''closed''), (''number'', JNum 7 0)])\<close>
  by code_simp

theorem relevant_actions_are_dispatched_witness:
  \<open>has_string_form (get (JObj [(''action'', JStr ''closed''), (''number'', JNum 7 0)]) ''action'')
   \<and> handleRequest unused_hash [] (pull_request_event ''{"action":"closed","number":7}'')
     = Inr ((200, ActionIgnored (Some (JStr ''closed''))), [])\<close>
proof -
  let ?req = \<open>pull_request_event ''{"action":"closed","number":7}''\<close>
  let ?payload = "JObj [(''action'', JStr ''closed''), (''number'', JNum 7 0)]"
  have 1: "http_method ?req = ''POST''" and 2: "url ?req = ''/webhook'' \<or> url ?req = ''/''"
    and 3: "[] = [] \<or> verifySignature unused_hash [] (body ?req) (x_hub_signature_256 ?req) = Inr True"
    and 4: "x_github_event ?req = Some ''pull_request''"
    and 5: "JSON_parse (body ?req) = Some ?payload"
    and 6: "?payload \<noteq> JNull"
    and 7: "has_string_form (get ?payload ''action'')"
    by (simp_all add: pull_request_event_def parse_closed_event has_string_form_def get_def)
  from relevant_actions_are_dispatched[OF 1 2 3 4 5 6 7] 7
  show ?thesis by (simp add: get_def)
qed

text \<open>
  The case the claim leaves out: an action with no string form. The code writes the head
  of the "ignored" answer and then fails to build its message, so no answer is sent (and no
  event is fired); an object with a member named \<^verbatim>\<open>toString\<close> is such an action.
\<close>

lemma action_without_string_form:
  assumes "http_method req = ''POST''"
    and "url req = ''/webhook'' \<or> url req = ''/''"
    and "secret = [] \<or> verifySignature hmac secret (body req) (x_hub_signature_256 req) = Inr True"
    and "x_github_event req = Some ''pull_request''"
    and "JSON_parse (body req) = Some payload"
    and "payload \<noteq> JNull"
    and "\<not> has_string_form (get payload ''action'')"
  shows "handleRequest hmac secret req = Inl HeadersSent"
proof -
  have "\<nexists>a. get payload ''action'' = Some (JStr a)"
    using assms(7) by (auto simp: has_string_form_def)
  moreover have "action_ignored (get payload ''action'') = Inl HeadersSent"
    using assms(7) by (simp add: action_ignored_def)
  ultimately show ?thesis
    unfolding handleRequest_dispatch[OF assms(1,2,3)] dispatch_payload[OF assms(4,5,6)]
    by simp
qed

lemma action_object_with_toString:
  \<open>handleRequest unused_hash [] (pull_request_event ''{"action":{"toString":1}}'') = Inl HeadersSent\<close>
  by code_simp

text \<open>
  Claim C8 as stated fails on the third action of its list: the code (like GitHub) names
  it \<^verbatim>\<open>synchronize\<close>. A payload with that action, which is none of the four the claim
  lists, fires the event; a payload with the action \<^verbatim>\<open>synchronized\<close> is ignored.
\<close>

theorem synchronize_counterexample:
  \<open>''synchronize'' \<notin> {''opened'', ''synchronized'', ''reopened'', ''ready_for_review''}
   \<and> handleRequest unused_hash []
       (pull_request_event ''{"action":"synchronize","number":7,"pull_request":{"title":"Fix"}}'')
     = Inr ((200, ReviewTriggered (Some (JNum 7 0)) (JStr ''synchronize'')),
            [JObj [(''action'', JStr ''synchronize''), (''number'', JNum 7 0),
                   (''pull_request'', JObj [(''title'', JStr ''Fix'')])]])
   \<and> handleRequest unused_hash []
       (pull_request_event ''{"action":"synchronized","number":7,"pull_request":{"title":"Fix"}}'')
     = Inr ((200, ActionIgnored (Some (JStr ''synchronized''))), [])\<close>
  by code_simp

lemma length_utf8: "length s \<le> length (utf8 s)"
proof (induction s)
  case Nil
  then show ?case by (simp add: utf8_def)
next
  case (Cons c s)
  then show ?case by (simp add: utf8_def Let_def)
qed

lemma utf8_append: "utf8 (a @ b) = utf8 a @ utf8 b"
  by (simp add: utf8_def)

text \<open>
  Claim C9, at an input where the code departs from it. A secret is configured and the
  signature header is a short text. \<^verbatim>\<open>verifySignature\<close> hands the header and the digest,
  which differ in length, to \<^verbatim>\<open>crypto.timingSafeEqual\<close>; that throws, nothing catches it in
  the \<^verbatim>\<open>end\<close> handler, and no answer is written: not the 401 of the claim. This holds for
  every body and whatever the keyed hash gives.
\<close>

theorem short_signature_throws:
  "handleRequest hmac ''s3cret''
     \<lparr>http_method = ''POST'', url = ''/webhook'', x_hub_signature_256 = Some ''bogus'',
      x_github_event = Some ''pull_request'', body = payload\<rparr>
   = Inl RangeError"
proof -
  have "length (utf8 ''bogus'') = 5" by (simp add: utf8_def)
  moreover have "7 \<le> length (utf8 (''sha256='' @ hmac ''s3cret'' payload))"
    using length_utf8[of "''sha256='' @ hmac ''s3cret'' payload"] by simp
  ultimately have "timingSafeEqual (utf8 ''bogus'') (utf8 (''sha256='' @ hmac ''s3cret'' payload)) = Inl RangeError"
    by (simp add: timingSafeEqual_def)
  then show ?thesis
    by (simp add: handleRequest_def verifySignature_def)
qed

end
